theory Spec2Isabelle
  imports Complex_Main "HOL-Library.Word" "HOL-Library.Monad_Syntax"
begin

section \<open>Constants of Audio.cpp\<close>

text \<open>
  The constants are the ones at the head of \<^verbatim>\<open>Source/Audio.cpp\<close>. A sample is an
  \<^verbatim>\<open>int16_t\<close>; \<^verbatim>\<open>sizeof(int16_t)\<close> is 2. Integer division is C's (all operands are
  positive here, so it agrees with \<open>div\<close>).
\<close>

type_synonym int16 = "16 word"

definition sizeof_int16 :: nat where
  "sizeof_int16 = 2"

definition BUFFER_LENGTH_BYTES :: nat where
  "BUFFER_LENGTH_BYTES = 1024"

definition BUFFER_LENGTH_SAMPLES :: nat where
  "BUFFER_LENGTH_SAMPLES = BUFFER_LENGTH_BYTES div sizeof_int16"

definition PACKET_LENGTH_BYTES :: nat where
  "PACKET_LENGTH_BYTES = 1024"

definition PACKET_LENGTH_SAMPLES :: nat where
  "PACKET_LENGTH_SAMPLES = PACKET_LENGTH_BYTES div sizeof_int16"

definition RING_BUFFER_FRAMES :: nat where
  "RING_BUFFER_FRAMES = 4"

definition RING_BUFFER_SIZE_SAMPLES :: nat where
  "RING_BUFFER_SIZE_SAMPLES = RING_BUFFER_FRAMES * BUFFER_LENGTH_SAMPLES"

definition JITTER_BUFFER_LENGTH_MSECS :: nat where
  "JITTER_BUFFER_LENGTH_MSECS = 3"

definition SAMPLE_RATE :: nat where
  "SAMPLE_RATE = 22050"

text \<open>
  The local \<^verbatim>\<open>jitterBufferSamples\<close> of the receiver:
  \<^verbatim>\<open>JITTER_BUFFER_LENGTH_MSECS * (SAMPLE_RATE / 1000)\<close>, with the integer division done
  first, as the parentheses of the source say.
\<close>

definition jitterBufferSamples :: nat where
  "jitterBufferSamples = JITTER_BUFFER_LENGTH_MSECS * (SAMPLE_RATE div 1000)"

lemmas audio_consts =
  sizeof_int16_def BUFFER_LENGTH_BYTES_def BUFFER_LENGTH_SAMPLES_def
  PACKET_LENGTH_BYTES_def PACKET_LENGTH_SAMPLES_def RING_BUFFER_FRAMES_def
  RING_BUFFER_SIZE_SAMPLES_def JITTER_BUFFER_LENGTH_MSECS_def SAMPLE_RATE_def
  jitterBufferSamples_def

section \<open>The ring buffer\<close>

text \<open>
  \<^verbatim>\<open>AudioRingBuffer\<close> holds the sample store and two pointers into it. A pointer is
  modelled by its offset from \<^verbatim>\<open>buffer\<close>, counted in samples; the \<^verbatim>\<open>NULL\<close> that
  \<^verbatim>\<open>endOfLastWrite\<close> can hold is \<open>None\<close>.
\<close>

record AudioRingBuffer =
  buffer :: "int16 list"
  nextOutput :: nat
  endOfLastWrite :: "nat option"

text \<open>
  Modelled from the spec: \<^verbatim>\<open>AudioRingBuffer::diffLastWriteNextOutput\<close> is declared
  outside \<^verbatim>\<open>Audio.cpp\<close>. The spec (4.1, \<^verbatim>\<open>diffWriteToOutput\<close>) gives it as the distance,
  modulo the capacity, from \<^verbatim>\<open>nextOutput\<close> to \<^verbatim>\<open>endOfLastWrite\<close>. Both call sites of
  \<^verbatim>\<open>Audio.cpp\<close> reach it with the frontier set, so the frontier is an argument here.
\<close>

definition diffLastWriteNextOutput :: "nat \<Rightarrow> nat \<Rightarrow> int" where
  "diffLastWriteNextOutput e n = (int e - int n) mod int RING_BUFFER_SIZE_SAMPLES"

text \<open>
  Modelled from the spec: \<^verbatim>\<open>AudioRingBuffer::bufferOverlap\<close> is declared outside
  \<^verbatim>\<open>Audio.cpp\<close>. The spec (4.1) gives it as the number of the next \<open>len\<close> samples
  written from the cursor on that spill past the end of the store, 0 if none.
\<close>

definition bufferOverlap :: "nat \<Rightarrow> nat \<Rightarrow> nat" where
  "bufferOverlap p len =
     (if RING_BUFFER_SIZE_SAMPLES < p + len then p + len - RING_BUFFER_SIZE_SAMPLES else 0)"

section \<open>Copies\<close>

text \<open>
  \<^verbatim>\<open>memcpy(dst + d, src + s, n * sizeof(int16_t))\<close> on arrays of samples. A copy that
  leaves either array is undefined behaviour in C++; the model returns \<open>None\<close> there.
  \<^verbatim>\<open>memset(dst + d, 0, n * sizeof(int16_t))\<close> likewise.
\<close>

definition memcpy :: "'a list \<Rightarrow> nat \<Rightarrow> 'a list \<Rightarrow> nat \<Rightarrow> nat \<Rightarrow> 'a list option" where
  "memcpy dst d src s n =
     (if d + n \<le> length dst \<and> s + n \<le> length src
      then Some (take d dst @ take n (drop s src) @ drop (d + n) dst)
      else None)"

definition memset0 :: "int16 list \<Rightarrow> nat \<Rightarrow> nat \<Rightarrow> int16 list option" where
  "memset0 dst d n =
     (if d + n \<le> length dst
      then Some (take d dst @ replicate n 0 @ drop (d + n) dst)
      else None)"

section \<open>The receiver: one packet\<close>

text \<open>
  The body of the loop of \<^verbatim>\<open>receiveAudioViaUDP\<close> for one received packet;
  \<open>receivedData\<close> is the 512-sample array the socket filled. The time stamps and the
  log file are left out.
\<close>

definition needsJitterBuffer :: "AudioRingBuffer \<Rightarrow> bool" where
  "needsJitterBuffer rb =
     (case endOfLastWrite rb of
        None \<Rightarrow> True
      | Some e \<Rightarrow>
          int RING_BUFFER_SIZE_SAMPLES - int PACKET_LENGTH_SAMPLES
            < diffLastWriteNextOutput e (nextOutput rb))"

definition receivePacket :: "AudioRingBuffer \<Rightarrow> int16 list \<Rightarrow> AudioRingBuffer option" where
  "receivePacket rb receivedData =
     (let needs = needsJitterBuffer rb;
          copyToPointer = (if needs then 0 else (case endOfLastWrite rb of Some e \<Rightarrow> e | None \<Rightarrow> 0));
          bufferSampleOverlap =
            (if needs then 0 else bufferOverlap copyToPointer PACKET_LENGTH_SAMPLES)
      in
        if bufferSampleOverlap = 0 then
          (if needs then
             do {
               b1 \<leftarrow> memset0 (buffer rb) copyToPointer jitterBufferSamples;
               b2 \<leftarrow> memcpy b1 (copyToPointer + jitterBufferSamples) receivedData 0
                       PACKET_LENGTH_SAMPLES;
               Some (rb\<lparr>buffer := b2,
                         endOfLastWrite := Some (PACKET_LENGTH_SAMPLES + jitterBufferSamples)\<rparr>)
             }
           else
             do {
               b \<leftarrow> memcpy (buffer rb) copyToPointer receivedData 0 PACKET_LENGTH_SAMPLES;
               Some (rb\<lparr>buffer := b,
                         endOfLastWrite := Some (copyToPointer + PACKET_LENGTH_SAMPLES)\<rparr>)
             })
        else
          do {
            b1 \<leftarrow> memcpy (buffer rb) copyToPointer receivedData 0
                    (PACKET_LENGTH_SAMPLES - bufferSampleOverlap);
            b2 \<leftarrow> memcpy b1 0 receivedData bufferSampleOverlap bufferSampleOverlap;
            Some (rb\<lparr>buffer := b2, endOfLastWrite := Some bufferSampleOverlap\<rparr>)
          })"

section \<open>The output callback, relay mode\<close>

text \<open>
  \<^verbatim>\<open>audioCallback\<close> with \<^verbatim>\<open>ECHO_SERVER_TEST\<close> set, as the file has it: the branch that
  drains the ring buffer. The result carries the ring buffer as the callback leaves it,
  the two output channels, and whether \<^verbatim>\<open>"Starved"\<close> was printed. Forwarding the
  captured input to the socket does not touch any of this.
\<close>

definition silentTail :: "nat \<Rightarrow> nat \<Rightarrow> nat" where
  "silentTail e n =
     (if int n < int e \<and> int e - int n < int BUFFER_LENGTH_SAMPLES
      then BUFFER_LENGTH_SAMPLES - (e - n)
      else 0)"

text \<open>
  \<^verbatim>\<open>nextOutput += BUFFER_LENGTH_SAMPLES\<close>, then back to \<^verbatim>\<open>buffer\<close> when the pointer
  equals \<^verbatim>\<open>buffer + RING_BUFFER_SIZE_SAMPLES\<close> (an equality test, as in the source).
\<close>

definition advanceOutput :: "nat \<Rightarrow> nat" where
  "advanceOutput n =
     (if n + BUFFER_LENGTH_SAMPLES = RING_BUFFER_SIZE_SAMPLES then 0
      else n + BUFFER_LENGTH_SAMPLES)"

record CallbackResult =
  ringBuffer :: AudioRingBuffer
  outputLeft :: "int16 list"
  outputRight :: "int16 list"
  starved :: bool

definition audioCallback :: "AudioRingBuffer \<Rightarrow> CallbackResult option" where
  "audioCallback rb =
     (let queueBuffer = replicate BUFFER_LENGTH_SAMPLES (0 :: int16) in
        case endOfLastWrite rb of
          None \<Rightarrow>
            Some \<lparr>ringBuffer = rb, outputLeft = queueBuffer, outputRight = queueBuffer,
                  starved = False\<rparr>
        | Some e \<Rightarrow>
            do {
              q \<leftarrow> memcpy queueBuffer 0 (buffer rb) (nextOutput rb)
                     (BUFFER_LENGTH_SAMPLES - silentTail e (nextOutput rb));
              let n' = advanceOutput (nextOutput rb);
              let st = (diffLastWriteNextOutput e n' < int BUFFER_LENGTH_SAMPLES);
              Some \<lparr>ringBuffer = rb\<lparr>nextOutput := n',
                                      endOfLastWrite := (if st then None else Some e)\<rparr>,
                    outputLeft = q, outputRight = q, starved = st\<rparr>
            })"


text \<open>
  The hardware calls the callback again and again; \<open>callbacks k\<close> is \<open>k\<close> invocations
  in a row with no packet in between, collecting the frames they emit.
\<close>

fun callbacks :: "nat \<Rightarrow> AudioRingBuffer \<Rightarrow> (AudioRingBuffer \<times> (int16 list \<times> int16 list) list) option" where
  "callbacks 0 rb = Some (rb, [])"
| "callbacks (Suc k) rb =
     (case audioCallback rb of
        None \<Rightarrow> None
      | Some r \<Rightarrow>
          (case callbacks k (ringBuffer r) of
             None \<Rightarrow> None
           | Some (rb', frames) \<Rightarrow> Some (rb', (outputLeft r, outputRight r) # frames)))"

section \<open>Single precision\<close>

text \<open>
  A floating-point operation returns the exact result rounded to the nearest number of
  its format, ties to even: \<open>fp_round prec emin\<close> rounds to \<open>prec\<close> fraction bits with
  least exponent \<open>emin\<close> (gradual underflow below it). \<open>float_round\<close> is IEEE single
  precision, 23 fraction bits and least exponent -126, the \<^verbatim>\<open>float\<close> of the source;
  \<open>double_round\<close> is double precision, 52 fraction bits and least exponent -1022. Every
  operation is rounded to the format of its operands: no intermediate result is kept in a
  wider format, no product is fused with a sum. The functions of the C library
  (\<^verbatim>\<open>sqrtf\<close>, \<^verbatim>\<open>powf\<close>, \<^verbatim>\<open>cbrtf\<close>, \<^verbatim>\<open>sinf\<close>) are taken as correctly rounded, which
  IEEE 754 requires of the square root only: a library may return a neighbour of the
  value given here. Results beyond the largest finite number are not modelled.
\<close>

definition round_to_even :: "real \<Rightarrow> int" where
  "round_to_even r =
     (let f = \<lfloor>r\<rfloor> in
        if r - of_int f < 1 / 2 then f
        else if 1 / 2 < r - of_int f then f + 1
        else if even f then f else f + 1)"

definition fp_exponent :: "int \<Rightarrow> real \<Rightarrow> int" where
  "fp_exponent emin x = max emin \<lfloor>log 2 \<bar>x\<bar>\<rfloor>"

definition fp_round :: "nat \<Rightarrow> int \<Rightarrow> real \<Rightarrow> real" where
  "fp_round prec emin x =
     (if x = 0 then 0
      else
        let u = 2 powr (of_int (fp_exponent emin x) - of_nat prec)
        in of_int (round_to_even (x / u)) * u)"

text \<open>The unit in the last place.\<close>

definition fp_ulp :: "nat \<Rightarrow> int \<Rightarrow> real \<Rightarrow> real" where
  "fp_ulp prec emin x = 2 powr (of_int (fp_exponent emin x) - of_nat prec)"

definition float_round :: "real \<Rightarrow> real" where
  "float_round = fp_round 23 (- 126)"

definition double_round :: "real \<Rightarrow> real" where
  "double_round = fp_round 52 (- 1022)"

text \<open>\<^verbatim>\<open>M_PI\<close> is the \<^verbatim>\<open>double\<close> nearest to \<open>pi\<close>.\<close>

definition M_PI :: real where
  "M_PI = double_round pi"

section \<open>The output callback, synthesis mode\<close>

text \<open>
  The other branch of \<^verbatim>\<open>audioCallback\<close>: one pass of the loop over the sources. A
  \<^verbatim>\<open>float\<close> is the real number it denotes, and every \<^verbatim>\<open>float\<close> operation of lines 153
  to 180 is followed by \<open>float_round\<close>, in the order in which the expression is
  evaluated; the product with \<^verbatim>\<open>M_PI\<close> and the division by 180 at line 156 are
  \<^verbatim>\<open>double\<close> operations, rounded by \<open>double_round\<close>, and their result is rounded once
  more when it is stored in a \<^verbatim>\<open>float\<close>. A negation, \<^verbatim>\<open>fabsf\<close> and the conversion of an
  \<^verbatim>\<open>int16_t\<close> or of one of the integer constants to \<^verbatim>\<open>float\<close> are exact. A conversion
  from \<^verbatim>\<open>float\<close> to an integer type truncates towards zero; to \<^verbatim>\<open>int16_t\<close> it is
  undefined in C++ outside the range of the type, which is \<open>None\<close>. \<^verbatim>\<open>powf(x, 2)\<close> is
  the square and \<^verbatim>\<open>cbrtf\<close> the cube root, each rounded once; \<^verbatim>\<open>sqrt\<close> at line 157 has
  a \<^verbatim>\<open>float\<close> argument and is rounded to \<^verbatim>\<open>float\<close>. The listener's \<^verbatim>\<open>angle_to\<close> is a
  function of \<^verbatim>\<open>Util\<close>, not of this file: its result, in degrees, is an argument.
\<close>

definition PHASE_DELAY_AT_90 :: int where
  "PHASE_DELAY_AT_90 = 20"

definition AMPLITUDE_RATIO_AT_90 :: real where
  "AMPLITUDE_RATIO_AT_90 = 0.5"

definition NUM_AUDIO_SOURCES :: nat where
  "NUM_AUDIO_SOURCES = 2"

text \<open>Conversions between \<^verbatim>\<open>int16_t\<close> and \<^verbatim>\<open>float\<close>.\<close>

definition float_to_int :: "real \<Rightarrow> int" where
  "float_to_int x = (if 0 \<le> x then \<lfloor>x\<rfloor> else \<lceil>x\<rceil>)"

definition float_to_int16 :: "real \<Rightarrow> int16 option" where
  "float_to_int16 x =
     (if - 32768 \<le> float_to_int x \<and> float_to_int x \<le> 32767
      then Some (word_of_int (float_to_int x)) else None)"

definition int16_to_float :: "int16 \<Rightarrow> real" where
  "int16_to_float s = real_of_int (sint s)"

type_synonym vec3 = "real \<times> real \<times> real"

record AudioSource =
  position :: vec3
  sourceData :: "int16 list"
  samplePointer :: nat
  lengthInSamples :: nat

text \<open>
  The next 512 samples of the source from \<^verbatim>\<open>samplePointer\<close> on, wrapping on the source's
  length (lines 141 to 151). A negative byte count of \<^verbatim>\<open>memcpy\<close> is \<open>None\<close>.
\<close>

definition readFrame :: "AudioSource \<Rightarrow> int16 list \<Rightarrow> (AudioSource \<times> int16 list) option" where
  "readFrame source queue =
     (let wrapAroundSamples =
            int BUFFER_LENGTH_SAMPLES
              - (int (lengthInSamples source) - int (samplePointer source))
      in
        if wrapAroundSamples \<le> 0 then
          do {
            q \<leftarrow> memcpy queue 0 (sourceData source) (samplePointer source) BUFFER_LENGTH_SAMPLES;
            Some (source\<lparr>samplePointer := samplePointer source + BUFFER_LENGTH_SAMPLES\<rparr>, q)
          }
        else if int (lengthInSamples source) - int (samplePointer source) < 0 then None
        else
          do {
            q1 \<leftarrow> memcpy queue 0 (sourceData source) (samplePointer source)
                    (lengthInSamples source - samplePointer source);
            q2 \<leftarrow> memcpy q1 (lengthInSamples source - samplePointer source)
                    (sourceData source) 0 (nat wrapAroundSamples);
            Some (source\<lparr>samplePointer := nat wrapAroundSamples\<rparr>, q2)
          })"

text \<open>
  Lines 153 to 160: distance, attenuation, angle, delay and amplitude ratio. The delay and
  the amplitude ratio are functions of the angle in radians, the \<^verbatim>\<open>float\<close>
  \<^verbatim>\<open>angleToSource\<close> of line 156.
\<close>

definition planarDistance :: "vec3 \<Rightarrow> vec3 \<Rightarrow> real" where
  "planarDistance headPos sourcePos =
     float_round (sqrt (float_round
       (float_round ((float_round (- fst headPos - fst sourcePos))\<^sup>2)
        + float_round ((float_round (- snd (snd headPos) - snd (snd sourcePos)))\<^sup>2))))"

definition distanceAmpRatio :: "real \<Rightarrow> real" where
  "distanceAmpRatio distance =
     float_round (0.5 powr float_round (root 3 (float_round (distance * 10))))"

definition angleToSource :: "real \<Rightarrow> real" where
  "angleToSource angle_to = float_round (double_round (double_round (angle_to * M_PI) / 180))"

definition sinRatio :: "real \<Rightarrow> real" where
  "sinRatio angle = float_round (sqrt \<bar>float_round (sin angle)\<bar>)"

definition numSamplesDelay :: "real \<Rightarrow> int" where
  "numSamplesDelay angle =
     float_to_int (float_round (real_of_int PHASE_DELAY_AT_90 * sinRatio angle))"

definition phaseAmpRatio :: "real \<Rightarrow> real" where
  "phaseAmpRatio angle = float_round (1 - float_round (AMPLITUDE_RATIO_AT_90 * sinRatio angle))"

text \<open>
  Lines 167 to 182: the loop over the 512 samples of the frame. \<open>scaleSample\<close> is
  \<^verbatim>\<open>samplesToQueue[i] *= distanceAmpRatio / NUM_AUDIO_SOURCES\<close>; \<open>historySample\<close> is the
  \<^verbatim>\<open>else\<close> branch, the new value of \<^verbatim>\<open>trailingOutput[i]\<close> taken from the source's samples
  before the frame; \<open>mixSample\<close> is the loop body at index \<open>i\<close>, and \<open>mixSamples \<dots> n\<close>
  its first \<open>n\<close> iterations.
\<close>

record MixState =
  samplesToQueue :: "int16 list"
  leadingOutput :: "int16 list"
  trailingOutput :: "int16 list"

definition historySample ::
  "AudioSource \<Rightarrow> nat \<Rightarrow> int \<Rightarrow> real \<Rightarrow> real \<Rightarrow> nat \<Rightarrow> int16 \<Rightarrow> int16 option" where
  "historySample source startPointer delay dAmp pAmp i t =
     (let sampleIndex = int startPointer - delay + int i;
          sampleIndex' =
            (if sampleIndex < 0 then sampleIndex + int (lengthInSamples source)
             else sampleIndex)
      in
        if 0 \<le> sampleIndex' \<and> sampleIndex' < int (length (sourceData source)) then
          float_to_int16
            (float_round
               (int16_to_float t
                + float_round
                    (int16_to_float (sourceData source ! nat sampleIndex')
                     * float_round (float_round (dAmp * pAmp) / real NUM_AUDIO_SOURCES))))
        else None)"

definition scaleSample :: "real \<Rightarrow> int16 \<Rightarrow> int16 option" where
  "scaleSample dAmp s =
     float_to_int16
       (float_round (int16_to_float s * float_round (dAmp / real NUM_AUDIO_SOURCES)))"

definition mixSample ::
  "AudioSource \<Rightarrow> nat \<Rightarrow> int \<Rightarrow> real \<Rightarrow> real \<Rightarrow> nat \<Rightarrow> MixState \<Rightarrow> MixState option" where
  "mixSample source startPointer delay dAmp pAmp i st =
     do {
       q \<leftarrow> scaleSample dAmp (samplesToQueue st ! i);
       let queue = (samplesToQueue st)[i := q];
       let leading = (leadingOutput st)[i := leadingOutput st ! i + queue ! i];
       if delay \<le> int i then
         Some \<lparr>samplesToQueue = queue, leadingOutput = leading,
               trailingOutput =
                 (trailingOutput st)[i := trailingOutput st ! i + queue ! nat (int i - delay)]\<rparr>
       else
         do {
           t \<leftarrow> historySample source startPointer delay dAmp pAmp i (trailingOutput st ! i);
           Some \<lparr>samplesToQueue = queue, leadingOutput = leading,
                 trailingOutput = (trailingOutput st)[i := t]\<rparr>
         }
     }"

primrec mixSamples ::
  "AudioSource \<Rightarrow> nat \<Rightarrow> int \<Rightarrow> real \<Rightarrow> real \<Rightarrow> nat \<Rightarrow> MixState \<Rightarrow> MixState option" where
  "mixSamples source startPointer delay dAmp pAmp 0 st = Some st"
| "mixSamples source startPointer delay dAmp pAmp (Suc n) st =
     (case mixSamples source startPointer delay dAmp pAmp n st of
        None \<Rightarrow> None
      | Some st' \<Rightarrow> mixSample source startPointer delay dAmp pAmp n st')"

text \<open>
  One source: read the frame, compute the parameters, choose the leading ear by the sign
  of the angle, run the loop. The three arrays have 512 samples each.
\<close>

record SourceMix =
  mixedSource :: AudioSource
  mixedQueue :: "int16 list"
  mixedLeft :: "int16 list"
  mixedRight :: "int16 list"

definition mixSource ::
  "vec3 \<Rightarrow> real \<Rightarrow> AudioSource \<Rightarrow> int16 list \<Rightarrow> int16 list \<Rightarrow> int16 list \<Rightarrow> SourceMix option" where
  "mixSource headPos angle_to source queue outL outR =
     (if length queue = BUFFER_LENGTH_SAMPLES \<and> length outL = BUFFER_LENGTH_SAMPLES
         \<and> length outR = BUFFER_LENGTH_SAMPLES
      then
        do {
          let startPointer = samplePointer source;
          (source', q) \<leftarrow> readFrame source queue;
          let distance = planarDistance headPos (position source);
          let angle = angleToSource angle_to;
          let leftLeads = (0 < angle);
          st \<leftarrow> mixSamples source' startPointer (numSamplesDelay angle)
                  (distanceAmpRatio distance) (phaseAmpRatio angle)
                  BUFFER_LENGTH_SAMPLES
                  \<lparr>samplesToQueue = q,
                   leadingOutput = (if leftLeads then outL else outR),
                   trailingOutput = (if leftLeads then outR else outL)\<rparr>;
          Some \<lparr>mixedSource = source', mixedQueue = samplesToQueue st,
                mixedLeft = (if leftLeads then leadingOutput st else trailingOutput st),
                mixedRight = (if leftLeads then trailingOutput st else leadingOutput st)\<rparr>
        }
      else None)"

section \<open>Receiver and callback in sequence\<close>

text \<open>
  The receiver thread and the hardware callback share the ring buffer. Taking each
  packet write and each callback as one step, a session is a sequence of such steps;
  \<open>run\<close> carries the ring buffer through it and is \<open>None\<close> as soon as a step copies out of
  bounds. \<open>ringInvariant\<close> collects what every step preserves: the size of the store, a
  frame-aligned read cursor, and a frontier that is unset or one of the four offsets
  66 + 512 k.
\<close>

datatype event = Packet "int16 list" | Callback

fun run :: "event list \<Rightarrow> AudioRingBuffer \<Rightarrow> AudioRingBuffer option" where
  "run [] rb = Some rb"
| "run (Packet p # es) rb =
     (case receivePacket rb p of None \<Rightarrow> None | Some r \<Rightarrow> run es r)"
| "run (Callback # es) rb =
     (case audioCallback rb of None \<Rightarrow> None | Some res \<Rightarrow> run es (ringBuffer res))"

fun wellFormed :: "event \<Rightarrow> bool" where
  "wellFormed (Packet p) = (length p = PACKET_LENGTH_SAMPLES)"
| "wellFormed Callback = True"

definition ringInvariant :: "AudioRingBuffer \<Rightarrow> bool" where
  "ringInvariant rb \<longleftrightarrow>
     length (buffer rb) = RING_BUFFER_SIZE_SAMPLES
     \<and> nextOutput rb mod BUFFER_LENGTH_SAMPLES = 0
     \<and> nextOutput rb < RING_BUFFER_SIZE_SAMPLES
     \<and> endOfLastWrite rb \<in> {None, Some 66, Some 578, Some 1090, Some 1602}"

section \<open>Session start\<close>

text \<open>
  \<^verbatim>\<open>Audio::init(Head *)\<close>. The three PortAudio calls are the environment: the record
  gives the \<^verbatim>\<open>PaError\<close> each of them returns. \<^verbatim>\<open>paNoError\<close> is PortAudio's 0. The result
  holds the statics \<^verbatim>\<open>initialized\<close> and \<^verbatim>\<open>err\<close> as \<^verbatim>\<open>init\<close> leaves them, the error
  code written to \<^verbatim>\<open>stderr\<close> at the label \<^verbatim>\<open>error\<close> (if reached), and the returned
  \<^verbatim>\<open>bool\<close>. The function ends in \<^verbatim>\<open>return paNoError\<close>, which a \<^verbatim>\<open>bool\<close> function
  returns as \<^verbatim>\<open>false\<close>.
\<close>

type_synonym PaError = int

definition paNoError :: PaError where
  "paNoError = 0"

record PortAudio =
  Pa_Initialize :: PaError
  Pa_OpenDefaultStream :: PaError
  Pa_StartStream :: PaError

record InitResult =
  initialized :: bool
  err :: PaError
  reported :: "PaError option"
  returned :: bool

definition init_error :: "PaError \<Rightarrow> InitResult" where
  "init_error e = \<lparr>initialized = False, err = e, reported = Some e, returned = False\<rparr>"

text \<open>
  The source assigns \<^verbatim>\<open>err\<close> from \<^verbatim>\<open>Pa_Initialize\<close> and from \<^verbatim>\<open>Pa_OpenDefaultStream\<close>,
  but calls \<^verbatim>\<open>Pa_StartStream(stream);\<close> as a statement: the test that follows reads the
  \<^verbatim>\<open>err\<close> of the open call again.
\<close>

definition init :: "PortAudio \<Rightarrow> InitResult" where
  "init pa =
     (let err1 = Pa_Initialize pa in
        if err1 \<noteq> paNoError then init_error err1
        else
          let err2 = Pa_OpenDefaultStream pa in
            if err2 \<noteq> paNoError then init_error err2
            else
              if err2 \<noteq> paNoError then init_error err2
              else \<lparr>initialized = True, err = err2, reported = None,
                     returned = (paNoError \<noteq> 0)\<rparr>)"

section \<open>The three ways a packet is written\<close>

text \<open>
  What \<open>receivePacket\<close> computes on a store of 2048 samples and a packet of 512: behind
  a cushion at the store start, straight after the frontier, or split at the end of the
  store. A split of more than 256 samples reads past the end of the packet array. Then the
  two cases of the callback.
\<close>

lemma receive_cushion:
  assumes "needsJitterBuffer rb"
    and "length (buffer rb) = RING_BUFFER_SIZE_SAMPLES"
    and "length pkt = PACKET_LENGTH_SAMPLES"
  shows "receivePacket rb pkt =
    Some (rb\<lparr>buffer := replicate jitterBufferSamples 0 @ pkt
                        @ drop (jitterBufferSamples + PACKET_LENGTH_SAMPLES) (buffer rb),
              endOfLastWrite := Some (PACKET_LENGTH_SAMPLES + jitterBufferSamples)\<rparr>)"
  using assms by (simp add: receivePacket_def memset0_def memcpy_def audio_consts)

lemma receive_append:
  assumes "\<not> needsJitterBuffer rb" and "endOfLastWrite rb = Some e"
    and "e + PACKET_LENGTH_SAMPLES \<le> RING_BUFFER_SIZE_SAMPLES"
    and "length (buffer rb) = RING_BUFFER_SIZE_SAMPLES"
    and "length pkt = PACKET_LENGTH_SAMPLES"
  shows "receivePacket rb pkt =
    Some (rb\<lparr>buffer := take e (buffer rb) @ pkt @ drop (e + PACKET_LENGTH_SAMPLES) (buffer rb),
              endOfLastWrite := Some (e + PACKET_LENGTH_SAMPLES)\<rparr>)"
  using assms by (simp add: receivePacket_def bufferOverlap_def memcpy_def audio_consts)

lemma receive_wrap:
  assumes "\<not> needsJitterBuffer rb" and "endOfLastWrite rb = Some e"
    and "1536 < e" and "e \<le> 1792"
    and "length (buffer rb) = RING_BUFFER_SIZE_SAMPLES"
    and "length pkt = PACKET_LENGTH_SAMPLES"
  shows "receivePacket rb pkt =
    Some (rb\<lparr>buffer := take (e - 1536) (drop (e - 1536) pkt)
                        @ drop (e - 1536) (take e (buffer rb))
                        @ take (2048 - e) pkt,
              endOfLastWrite := Some (e - 1536)\<rparr>)"
  using assms
  by (simp add: receivePacket_def bufferOverlap_def memcpy_def audio_consts Let_def) arith

lemma receive_wrap_out_of_bounds:
  assumes "\<not> needsJitterBuffer rb" and "endOfLastWrite rb = Some e"
    and "1792 < e" and "e \<le> 2048"
    and "length (buffer rb) = RING_BUFFER_SIZE_SAMPLES"
    and "length pkt = PACKET_LENGTH_SAMPLES"
  shows "receivePacket rb pkt = None"
  using assms
  by (simp add: receivePacket_def bufferOverlap_def memcpy_def audio_consts Let_def) arith

lemma callback_idle:
  assumes "endOfLastWrite rb = None"
  shows "audioCallback rb =
    Some \<lparr>ringBuffer = rb, outputLeft = replicate BUFFER_LENGTH_SAMPLES 0,
          outputRight = replicate BUFFER_LENGTH_SAMPLES 0, starved = False\<rparr>"
  using assms by (simp add: audioCallback_def Let_def)

lemma silentTail_le: "silentTail e n \<le> BUFFER_LENGTH_SAMPLES"
  by (simp add: silentTail_def) arith

lemma callback_drain:
  assumes "endOfLastWrite rb = Some e"
    and "nextOutput rb + BUFFER_LENGTH_SAMPLES \<le> length (buffer rb)"
  shows "audioCallback rb =
    Some \<lparr>ringBuffer =
            rb\<lparr>nextOutput := advanceOutput (nextOutput rb),
               endOfLastWrite :=
                 (if diffLastWriteNextOutput e (advanceOutput (nextOutput rb)) < int BUFFER_LENGTH_SAMPLES
                  then None else Some e)\<rparr>,
          outputLeft =
            take (BUFFER_LENGTH_SAMPLES - silentTail e (nextOutput rb))
              (drop (nextOutput rb) (buffer rb))
            @ replicate (silentTail e (nextOutput rb)) 0,
          outputRight =
            take (BUFFER_LENGTH_SAMPLES - silentTail e (nextOutput rb))
              (drop (nextOutput rb) (buffer rb))
            @ replicate (silentTail e (nextOutput rb)) 0,
          starved =
            (diffLastWriteNextOutput e (advanceOutput (nextOutput rb)) < int BUFFER_LENGTH_SAMPLES)\<rparr>"
proof -
  have st: "silentTail e (nextOutput rb) \<le> BUFFER_LENGTH_SAMPLES"
    by (rule silentTail_le)
  show ?thesis
    using assms st
    by (simp add: audioCallback_def memcpy_def advanceOutput_def Let_def)
qed

section \<open>Session start: the failures that are seen\<close>

text \<open>
  A failure of \<^verbatim>\<open>Pa_Initialize\<close> or of \<^verbatim>\<open>Pa_OpenDefaultStream\<close> does reach the label
  \<^verbatim>\<open>error\<close>.
\<close>

lemma init_reports_earlier_failures:
  assumes "Pa_Initialize pa \<noteq> paNoError \<or> Pa_OpenDefaultStream pa \<noteq> paNoError"
  shows "\<exists>e. e \<noteq> paNoError \<and> init pa = init_error e"
  using assms by (auto simp: init_def Let_def)

section \<open>Arithmetic of the cursors\<close>

text \<open>
  The constants evaluated, the four positions of a frame-aligned read cursor, and the
  distance modulo the capacity written out without \<open>mod\<close>.
\<close>

lemma audio_const_values:
  "BUFFER_LENGTH_SAMPLES = 512" "PACKET_LENGTH_SAMPLES = 512"
  "RING_BUFFER_SIZE_SAMPLES = 2048" "jitterBufferSamples = 66"
  by (simp_all add: audio_consts)

lemma aligned_cases:
  assumes "n mod BUFFER_LENGTH_SAMPLES = 0" and "n < RING_BUFFER_SIZE_SAMPLES"
  shows "n = 0 \<or> n = 512 \<or> n = 1024 \<or> n = 1536"
proof -
  from assms(1) obtain q where q: "n = 512 * q"
    unfolding audio_const_values by (auto simp: mod_eq_0_iff_dvd)
  with assms(2) have "q < 4" unfolding audio_const_values by simp
  then have "q = 0 \<or> q = 1 \<or> q = 2 \<or> q = 3" by arith
  with q show ?thesis by auto
qed

lemma diff_unfolded:
  assumes "n < RING_BUFFER_SIZE_SAMPLES" and "e \<le> RING_BUFFER_SIZE_SAMPLES"
  shows "diffLastWriteNextOutput e n =
    (if n \<le> e then (if e = 2048 \<and> n = 0 then 0 else int e - int n)
     else int e - int n + 2048)"
proof (cases "n \<le> e")
  case True
  show ?thesis
  proof (cases "e = 2048 \<and> n = 0")
    case True
    then show ?thesis
      by (simp add: diffLastWriteNextOutput_def audio_const_values)
  next
    case False
    with \<open>n \<le> e\<close> assms have "0 \<le> int e - int n" "int e - int n < 2048"
      unfolding audio_const_values by auto
    then have "(int e - int n) mod 2048 = int e - int n"
      by (rule mod_pos_pos_trivial)
    with False \<open>n \<le> e\<close> show ?thesis
      by (simp add: diffLastWriteNextOutput_def audio_const_values)
  qed
next
  case False
  with assms have "0 \<le> int e - int n + 2048" "int e - int n + 2048 < 2048"
    unfolding audio_const_values by auto
  then have "(int e - int n + 2048) mod 2048 = int e - int n + 2048"
    by (rule mod_pos_pos_trivial)
  then have "(int e - int n) mod 2048 = int e - int n + 2048"
    by simp
  with False show ?thesis
    by (simp add: diffLastWriteNextOutput_def audio_const_values)
qed

lemma aligned_frame_fits:
  assumes "n mod BUFFER_LENGTH_SAMPLES = 0" and "n < RING_BUFFER_SIZE_SAMPLES"
  shows "n + BUFFER_LENGTH_SAMPLES \<le> RING_BUFFER_SIZE_SAMPLES"
  using aligned_cases [OF assms] by (auto simp: audio_const_values)

lemma advanceOutput_aligned:
  assumes "n mod BUFFER_LENGTH_SAMPLES = 0" and "n < RING_BUFFER_SIZE_SAMPLES"
  shows "advanceOutput n mod BUFFER_LENGTH_SAMPLES = 0 \<and> advanceOutput n < RING_BUFFER_SIZE_SAMPLES"
  using aligned_cases [OF assms] by (auto simp: advanceOutput_def audio_const_values)

lemma silentTail_iff_short_lead:
  assumes "n mod BUFFER_LENGTH_SAMPLES = 0" and "n < RING_BUFFER_SIZE_SAMPLES"
    and "e \<le> RING_BUFFER_SIZE_SAMPLES"
  shows "silentTail e n \<noteq> 0 \<longleftrightarrow>
    0 < diffLastWriteNextOutput e n \<and> diffLastWriteNextOutput e n < int BUFFER_LENGTH_SAMPLES"
proof -
  have fits: "n + 512 \<le> 2048"
    using aligned_frame_fits [OF assms(1,2)] by (simp add: audio_const_values)
  show ?thesis
    unfolding diff_unfolded [OF assms(2,3)] silentTail_def
    using fits assms(3) by (simp add: audio_const_values)
qed

lemma silentTail_value:
  assumes "silentTail e n \<noteq> 0"
    and "n < RING_BUFFER_SIZE_SAMPLES" and "e \<le> RING_BUFFER_SIZE_SAMPLES"
  shows "int (silentTail e n) = int BUFFER_LENGTH_SAMPLES - diffLastWriteNextOutput e n"
  using assms(1) unfolding diff_unfolded [OF assms(2,3)] silentTail_def
  by (simp add: audio_const_values split: if_splits)

section \<open>Idle callbacks, the cushion test, writes from the frontier\<close>

lemma callbacks_idle:
  assumes "endOfLastWrite rb = None"
  shows "callbacks k rb =
    Some (rb, replicate k (replicate BUFFER_LENGTH_SAMPLES 0, replicate BUFFER_LENGTH_SAMPLES 0))"
  by (induction k) (simp_all add: callback_idle [OF assms])

lemma needsJitterBuffer_iff:
  "needsJitterBuffer rb \<longleftrightarrow>
     (endOfLastWrite rb = None \<or>
      (\<exists>e. endOfLastWrite rb = Some e \<and>
           int RING_BUFFER_SIZE_SAMPLES - int PACKET_LENGTH_SAMPLES
             < diffLastWriteNextOutput e (nextOutput rb)))"
  by (cases "endOfLastWrite rb") (simp_all add: needsJitterBuffer_def)

lemma receive_no_cushion_head:
  assumes no: "\<not> needsJitterBuffer rb" and fr: "endOfLastWrite rb = Some e"
    and le: "e \<le> 1792"
    and len: "length (buffer rb) = RING_BUFFER_SIZE_SAMPLES"
    and pk: "length pkt = PACKET_LENGTH_SAMPLES"
  shows "\<exists>r. receivePacket rb pkt = Some r
    \<and> take (PACKET_LENGTH_SAMPLES - bufferOverlap e PACKET_LENGTH_SAMPLES) (drop e (buffer r))
        = take (PACKET_LENGTH_SAMPLES - bufferOverlap e PACKET_LENGTH_SAMPLES) pkt
    \<and> drop (bufferOverlap e PACKET_LENGTH_SAMPLES) (take e (buffer r))
        = drop (bufferOverlap e PACKET_LENGTH_SAMPLES) (take e (buffer rb))"
proof (cases "e \<le> 1536")
  case True
  then have room: "e + PACKET_LENGTH_SAMPLES \<le> RING_BUFFER_SIZE_SAMPLES"
    by (simp add: audio_const_values)
  have ov: "bufferOverlap e PACKET_LENGTH_SAMPLES = 0"
    using True by (simp add: bufferOverlap_def audio_const_values)
  have e_len: "e \<le> length (buffer rb)"
    using True len by (simp add: audio_const_values)
  show ?thesis
    unfolding receive_append [OF no fr room len pk] ov
    using e_len pk by simp
next
  case False
  then have wrap: "1536 < e" by simp
  have ov: "bufferOverlap e PACKET_LENGTH_SAMPLES = e - 1536"
    using wrap by (simp add: bufferOverlap_def audio_const_values)
  define A where "A = take (e - 1536) (drop (e - 1536) pkt)"
  define B where "B = drop (e - 1536) (take e (buffer rb))"
  define T where "T = take (2048 - e) pkt"
  have lA: "length A = e - 1536"
    using wrap le pk by (simp add: A_def audio_const_values)
  have lB: "length B = 1536"
    using wrap le len by (simp add: B_def audio_const_values)
  have lAB: "length (A @ B) = e"
    using lA lB wrap by simp
  have run: "receivePacket rb pkt =
      Some (rb\<lparr>buffer := (A @ B) @ T, endOfLastWrite := Some (e - 1536)\<rparr>)"
    unfolding receive_wrap [OF no fr wrap le len pk] A_def B_def T_def by simp
  have hd_part: "drop e ((A @ B) @ T) = T"
    using lAB by (simp del: append_assoc)
  have "take e ((A @ B) @ T) = A @ B"
    using lAB by (simp del: append_assoc)
  then have kept: "drop (e - 1536) (take e ((A @ B) @ T)) = B"
    using lA by simp
  have sz: "PACKET_LENGTH_SAMPLES - (e - 1536) = 2048 - e"
    using wrap le by (simp add: audio_const_values)
  have tt: "take (2048 - e) T = T"
    by (simp add: T_def)
  show ?thesis
    unfolding run ov sz
    using hd_part kept tt by (simp add: T_def [symmetric] B_def [symmetric] del: append_assoc)
qed

section \<open>What every step preserves\<close>

text \<open>
  From a frontier on the grid 66, 578, 1090, 1602 (or unset) every packet is written
  without leaving the arrays and leaves the frontier on the grid; the callback leaves
  the store alone and either keeps the frontier or unsets it. Hence no sequence of
  packets and callbacks that starts in \<open>ringInvariant\<close> ever copies out of bounds.
\<close>

lemma receive_total_on_grid:
  assumes len: "length (buffer rb) = RING_BUFFER_SIZE_SAMPLES"
    and pk: "length pkt = PACKET_LENGTH_SAMPLES"
    and grid: "endOfLastWrite rb \<in> {None, Some 66, Some 578, Some 1090, Some 1602}"
  shows "\<exists>r. receivePacket rb pkt = Some r
    \<and> endOfLastWrite r \<in> {Some 66, Some 578, Some 1090, Some 1602}
    \<and> length (buffer r) = RING_BUFFER_SIZE_SAMPLES
    \<and> nextOutput r = nextOutput rb"
proof (cases "needsJitterBuffer rb")
  case True
  show ?thesis
    unfolding receive_cushion [OF True len pk]
    using len pk by (simp add: audio_const_values)
next
  case False
  then obtain e where fr: "endOfLastWrite rb = Some e"
    by (cases "endOfLastWrite rb") (simp_all add: needsJitterBuffer_def)
  with grid have e: "e = 66 \<or> e = 578 \<or> e = 1090 \<or> e = 1602"
    by simp
  show ?thesis
  proof (cases "e = 1602")
    case True
    have "1536 < e" "e \<le> 1792" using True by simp_all
    from receive_wrap [OF False fr this len pk] show ?thesis
      using True len pk by (simp add: audio_const_values)
  next
    case False
    with e have room: "e + PACKET_LENGTH_SAMPLES \<le> RING_BUFFER_SIZE_SAMPLES"
      by (auto simp: audio_const_values)
    from receive_append [OF \<open>\<not> needsJitterBuffer rb\<close> fr room len pk] show ?thesis
      using e False len pk by (auto simp: audio_const_values)
  qed
qed

lemma callback_keeps_store:
  assumes len: "length (buffer rb) = RING_BUFFER_SIZE_SAMPLES"
    and al: "nextOutput rb mod BUFFER_LENGTH_SAMPLES = 0"
    and lt: "nextOutput rb < RING_BUFFER_SIZE_SAMPLES"
  shows "\<exists>res. audioCallback rb = Some res
    \<and> buffer (ringBuffer res) = buffer rb
    \<and> (endOfLastWrite (ringBuffer res) = endOfLastWrite rb
        \<or> endOfLastWrite (ringBuffer res) = None)"
proof (cases "endOfLastWrite rb")
  case None
  show ?thesis
    unfolding callback_idle [OF None] by simp
next
  case (Some e)
  have fits: "nextOutput rb + BUFFER_LENGTH_SAMPLES \<le> length (buffer rb)"
    using aligned_frame_fits [OF al lt] len by simp
  show ?thesis
    unfolding callback_drain [OF Some fits] using Some by simp
qed

lemma receive_keeps_invariant:
  assumes "ringInvariant rb" and "length pkt = PACKET_LENGTH_SAMPLES"
  shows "\<exists>r. receivePacket rb pkt = Some r \<and> ringInvariant r"
proof -
  from assms(1) have len: "length (buffer rb) = RING_BUFFER_SIZE_SAMPLES"
    and grid: "endOfLastWrite rb \<in> {None, Some 66, Some 578, Some 1090, Some 1602}"
    by (simp_all add: ringInvariant_def)
  from receive_total_on_grid [OF len assms(2) grid] obtain r where
    r: "receivePacket rb pkt = Some r"
      "endOfLastWrite r \<in> {Some 66, Some 578, Some 1090, Some 1602}"
      "length (buffer r) = RING_BUFFER_SIZE_SAMPLES" "nextOutput r = nextOutput rb"
    by blast
  with assms(1) have "ringInvariant r"
    by (auto simp: ringInvariant_def)
  with r(1) show ?thesis by blast
qed

lemma callback_keeps_invariant:
  assumes "ringInvariant rb"
  shows "\<exists>res. audioCallback rb = Some res \<and> ringInvariant (ringBuffer res)"
proof -
  from assms have len: "length (buffer rb) = RING_BUFFER_SIZE_SAMPLES"
    and al: "nextOutput rb mod BUFFER_LENGTH_SAMPLES = 0"
    and lt: "nextOutput rb < RING_BUFFER_SIZE_SAMPLES"
    and grid: "endOfLastWrite rb \<in> {None, Some 66, Some 578, Some 1090, Some 1602}"
    by (simp_all add: ringInvariant_def)
  show ?thesis
  proof (cases "endOfLastWrite rb")
    case None
    show ?thesis
      unfolding callback_idle [OF None] using assms by simp
  next
    case (Some e)
    have fits: "nextOutput rb + BUFFER_LENGTH_SAMPLES \<le> length (buffer rb)"
      using aligned_frame_fits [OF al lt] len by simp
    show ?thesis
      unfolding callback_drain [OF Some fits]
      using len grid Some advanceOutput_aligned [OF al lt]
      by (simp add: ringInvariant_def)
  qed
qed

lemma run_keeps_invariant:
  assumes "ringInvariant rb" and "\<forall>e \<in> set es. wellFormed e"
  shows "\<exists>r. run es rb = Some r \<and> ringInvariant r"
  using assms
proof (induction es arbitrary: rb)
  case Nil
  then show ?case by simp
next
  case (Cons e es)
  show ?case
  proof (cases e)
    case (Packet p)
    with Cons.prems have "length p = PACKET_LENGTH_SAMPLES" by simp
    from receive_keeps_invariant [OF Cons.prems(1) this] obtain r where
      r: "receivePacket rb p = Some r" "ringInvariant r" by blast
    from Cons.IH [OF r(2)] Cons.prems(2) r(1) Packet show ?thesis by simp
  next
    case Callback
    from callback_keeps_invariant [OF Cons.prems(1)] obtain res where
      r: "audioCallback rb = Some res" "ringInvariant (ringBuffer res)" by blast
    from Cons.IH [OF r(2)] Cons.prems(2) r(1) Callback show ?thesis by simp
  qed
qed

text \<open>
  The wrap branch of the receiver is reached: three packets into an empty buffer and one
  callback leave the frontier at 1602 and the read cursor at 512, where the next packet
  needs no cushion and spills 66 samples past the end of the store.
\<close>

lemma wrap_branch_is_reached:
  assumes len: "length (buffer rb) = RING_BUFFER_SIZE_SAMPLES"
    and empty: "endOfLastWrite rb = None"
    and start: "nextOutput rb = 0"
    and pk: "length p1 = PACKET_LENGTH_SAMPLES" "length p2 = PACKET_LENGTH_SAMPLES"
      "length p3 = PACKET_LENGTH_SAMPLES"
  shows "\<exists>r. run [Packet p1, Packet p2, Packet p3, Callback] rb = Some r
    \<and> length (buffer r) = RING_BUFFER_SIZE_SAMPLES
    \<and> endOfLastWrite r = Some 1602 \<and> nextOutput r = 512
    \<and> \<not> needsJitterBuffer r
    \<and> bufferOverlap 1602 PACKET_LENGTH_SAMPLES = 66"
proof -
  have needs0: "needsJitterBuffer rb"
    by (simp add: needsJitterBuffer_def empty)
  define r1 where "r1 = rb\<lparr>buffer := replicate jitterBufferSamples 0 @ p1
        @ drop (jitterBufferSamples + PACKET_LENGTH_SAMPLES) (buffer rb),
      endOfLastWrite := Some (PACKET_LENGTH_SAMPLES + jitterBufferSamples)\<rparr>"
  have s1: "receivePacket rb p1 = Some r1"
    unfolding r1_def by (rule receive_cushion [OF needs0 len pk(1)])
  have len1: "length (buffer r1) = RING_BUFFER_SIZE_SAMPLES"
    and fr1: "endOfLastWrite r1 = Some 578" and n1: "nextOutput r1 = 0"
    using len pk(1) start by (simp_all add: r1_def audio_const_values)
  have no1: "\<not> needsJitterBuffer r1"
    by (simp add: needsJitterBuffer_def fr1 n1 diffLastWriteNextOutput_def audio_const_values)
  define r2 where "r2 = r1\<lparr>buffer := take 578 (buffer r1) @ p2
        @ drop (578 + PACKET_LENGTH_SAMPLES) (buffer r1),
      endOfLastWrite := Some (578 + PACKET_LENGTH_SAMPLES)\<rparr>"
  have s2: "receivePacket r1 p2 = Some r2"
    unfolding r2_def
    by (rule receive_append [OF no1 fr1 _ len1 pk(2)]) (simp add: audio_const_values)
  have len2: "length (buffer r2) = RING_BUFFER_SIZE_SAMPLES"
    and fr2: "endOfLastWrite r2 = Some 1090" and n2: "nextOutput r2 = 0"
    using len1 pk(2) n1 by (simp_all add: r2_def audio_const_values)
  have no2: "\<not> needsJitterBuffer r2"
    by (simp add: needsJitterBuffer_def fr2 n2 diffLastWriteNextOutput_def audio_const_values)
  define r3 where "r3 = r2\<lparr>buffer := take 1090 (buffer r2) @ p3
        @ drop (1090 + PACKET_LENGTH_SAMPLES) (buffer r2),
      endOfLastWrite := Some (1090 + PACKET_LENGTH_SAMPLES)\<rparr>"
  have s3: "receivePacket r2 p3 = Some r3"
    unfolding r3_def
    by (rule receive_append [OF no2 fr2 _ len2 pk(3)]) (simp add: audio_const_values)
  have len3: "length (buffer r3) = RING_BUFFER_SIZE_SAMPLES"
    and fr3: "endOfLastWrite r3 = Some 1602" and n3: "nextOutput r3 = 0"
    using len2 pk(3) n2 by (simp_all add: r3_def audio_const_values)
  have fits: "nextOutput r3 + BUFFER_LENGTH_SAMPLES \<le> length (buffer r3)"
    by (simp add: n3 len3 audio_const_values)
  define r4 where "r4 = r3\<lparr>nextOutput := 512\<rparr>"
  have adv: "advanceOutput 0 = 512"
    by (simp add: advanceOutput_def audio_const_values)
  have d: "diffLastWriteNextOutput 1602 512 = 1090"
    by (simp add: diffLastWriteNextOutput_def audio_const_values)
  have s4: "map_option ringBuffer (audioCallback r3) = Some r4"
    unfolding callback_drain [OF fr3 fits] r4_def
    by (simp add: n3 adv d audio_const_values fr3)
  then obtain res where res: "audioCallback r3 = Some res" "ringBuffer res = r4"
    by auto
  have all_steps: "run [Packet p1, Packet p2, Packet p3, Callback] rb = Some r4"
    by (simp add: s1 s2 s3 res)
  have no4: "\<not> needsJitterBuffer r4"
    by (simp add: needsJitterBuffer_def r4_def fr3 d audio_const_values)
  have ov: "bufferOverlap 1602 PACKET_LENGTH_SAMPLES = 66"
    by (simp add: bufferOverlap_def audio_const_values)
  show ?thesis
    using all_steps no4 ov len3 fr3 by (simp add: r4_def)
qed

section \<open>Rounding\<close>

text \<open>
  Rounding is within half a unit in the last place, leaves the representable numbers
  alone, is monotone on the non-negative reals, and takes everything up to
  \<open>2 powr (emin - prec - 1)\<close> to 0.
\<close>

lemma round_to_even_of_int: "round_to_even (of_int k) = k"
  by (simp add: round_to_even_def)


lemma round_to_even_lower: "r - 1 / 2 \<le> of_int (round_to_even r)"
  unfolding round_to_even_def Let_def by (auto split: if_splits) linarith+

lemma round_to_even_upper: "of_int (round_to_even r) \<le> r + 1 / 2"
  unfolding round_to_even_def Let_def by (auto split: if_splits) linarith+





lemma fp_exponent_eq:
  assumes "2 powr of_int e \<le> \<bar>x\<bar>" and "\<bar>x\<bar> < 2 powr of_int (e + 1)" and "emin \<le> e"
  shows "fp_exponent emin x = e"
proof -
  have pos: "0 < \<bar>x\<bar>"
    using assms(1) by (smt (verit) powr_gt_zero)
  have "\<lfloor>log 2 \<bar>x\<bar>\<rfloor> = e"
    using assms(1,2) floor_log_eq_powr_iff [of "\<bar>x\<bar>" 2 e] pos by simp
  with assms(3) show ?thesis
    by (simp add: fp_exponent_def)
qed





lemma fp_ulp_pos: "0 < fp_ulp prec emin x"
  by (simp add: fp_ulp_def)

lemma fp_round_ulp:
  "fp_round prec emin x =
     (if x = 0 then 0
      else of_int (round_to_even (x / fp_ulp prec emin x)) * fp_ulp prec emin x)"
  by (simp add: fp_round_def fp_ulp_def Let_def)

lemma fp_round_zero: "fp_round prec emin 0 = 0"
  by (simp add: fp_round_def)

lemma fp_round_error:
  "\<bar>fp_round prec emin x - x\<bar> \<le> fp_ulp prec emin x / 2"
proof (cases "x = 0")
  case True
  then show ?thesis using fp_ulp_pos [of prec emin x] by (simp add: fp_round_zero)
next
  case False
  define u where "u = fp_ulp prec emin x"
  have u: "0 < u" by (simp add: u_def fp_ulp_pos)
  define n where "n = round_to_even (x / u)"
  have lo: "x / u - 1 / 2 \<le> of_int n" and hi: "of_int n \<le> x / u + 1 / 2"
    by (simp_all add: n_def round_to_even_lower round_to_even_upper)
  have "\<bar>of_int n - x / u\<bar> \<le> 1 / 2"
    using lo hi by linarith
  then have "\<bar>of_int n - x / u\<bar> * u \<le> 1 / 2 * u"
    using u by (intro mult_right_mono) simp_all
  moreover have "\<bar>of_int n - x / u\<bar> * u = \<bar>of_int n * u - x\<bar>"
  proof -
    have "\<bar>of_int n - x / u\<bar> * u = \<bar>(of_int n - x / u) * u\<bar>"
      using u by (simp add: abs_mult)
    also have "(of_int n - x / u) * u = of_int n * u - x"
      using u by (simp add: field_simps)
    finally show ?thesis .
  qed
  ultimately have "\<bar>of_int n * u - x\<bar> \<le> u / 2" by simp
  then show ?thesis
    using False by (simp add: fp_round_ulp u_def n_def)
qed

lemma two_powr_nonneg_int:
  assumes "0 \<le> m"
  shows "(2::real) powr of_int m = of_int (2 ^ nat m)"
proof -
  have "(2::real) powr of_int m = 2 powr real (nat m)"
    using assms by simp
  also have "\<dots> = 2 ^ nat m"
    by (rule powr_realpow) simp
  finally show ?thesis by simp
qed

lemma two_powr_mult: "(2::real) powr a * 2 powr b = 2 powr (a + b)"
  by (simp add: powr_add)

lemma two_powr_div: "(2::real) powr a / 2 powr b = 2 powr (a - b)"
  by (simp add: powr_diff)

lemma fp_round_exact:
  assumes x: "x = of_int k * 2 powr of_int e"
    and k: "\<bar>k\<bar> < 2 ^ (prec + 1)"
    and e: "emin - int prec \<le> e"
  shows "fp_round prec emin x = x"
proof (cases "k = 0")
  case True
  with x show ?thesis by (simp add: fp_round_zero)
next
  case False
  then have x0: "x \<noteq> 0" using x by simp
  define E where "E = fp_exponent emin x"
  have absx: "\<bar>x\<bar> = of_int \<bar>k\<bar> * 2 powr of_int e"
    by (simp add: x abs_mult)
  have "of_int \<bar>k\<bar> < (2::real) ^ (prec + 1)"
    using k by (metis of_int_less_iff of_int_numeral of_int_power)
  then have "\<bar>x\<bar> < 2 ^ (prec + 1) * 2 powr of_int e"
    unfolding absx by (intro mult_strict_right_mono) simp_all
  also have "(2::real) ^ (prec + 1) = 2 powr of_int (int prec + 1)"
    using two_powr_nonneg_int [of "int prec + 1"] by (simp add: nat_add_distrib)
  also have "(2::real) powr of_int (int prec + 1) * 2 powr of_int e
      = 2 powr (of_int (int prec + 1) + of_int e)"
    by (rule two_powr_mult)
  also have "of_int (int prec + 1) + of_int e = (of_int (int prec + e + 1) :: real)"
    by simp
  finally have small: "\<bar>x\<bar> < 2 powr of_int (int prec + e + 1)" .
  have "log 2 \<bar>x\<bar> < of_int (int prec + e + 1)"
    using small x0 by (simp add: log_less_iff)
  then have "\<lfloor>log 2 \<bar>x\<bar>\<rfloor> < int prec + e + 1"
    by (simp only: floor_less_iff)
  then have "\<lfloor>log 2 \<bar>x\<bar>\<rfloor> \<le> int prec + e"
    by linarith
  with e have E_le: "E \<le> int prec + e"
    by (simp add: E_def fp_exponent_def)
  define m where "m = e - E + int prec"
  have m0: "0 \<le> m" using E_le by (simp add: m_def)
  define u where "u = fp_ulp prec emin x"
  have u_eq: "u = 2 powr (of_int E - of_nat prec)"
    by (simp add: u_def fp_ulp_def E_def)
  have u: "0 < u" by (simp add: u_eq)
  have "2 powr of_int e / u = 2 powr (of_int e - (of_int E - of_nat prec))"
    unfolding u_eq by (rule two_powr_div)
  also have "of_int e - (of_int E - of_nat prec) = (of_int m :: real)"
    by (simp add: m_def)
  also have "(2::real) powr of_int m = of_int (2 ^ nat m)"
    by (rule two_powr_nonneg_int [OF m0])
  finally have ratio: "2 powr of_int e / u = of_int (2 ^ nat m)" .
  have "x / u = of_int k * (2 powr of_int e / u)"
    by (simp add: x)
  also have "\<dots> = of_int (k * 2 ^ nat m)"
    by (simp only: ratio of_int_mult)
  finally have q: "x / u = of_int (k * 2 ^ nat m)" .
  have "fp_round prec emin x = of_int (round_to_even (x / u)) * u"
    using x0 by (simp add: fp_round_ulp u_def)
  also have "\<dots> = x / u * u"
    by (simp only: q round_to_even_of_int)
  also have "\<dots> = x"
    using u by simp
  finally show ?thesis .
qed

lemma fp_round_of_int:
  assumes "\<bar>k\<bar> < 2 ^ (prec + 1)" and "emin \<le> int prec"
  shows "fp_round prec emin (of_int k) = of_int k"
  using fp_round_exact [of "of_int k" k 0 prec emin] assms by simp








lemma float_round_of_int:
  assumes "\<bar>k\<bar> < 16777216"
  shows "float_round (of_int k) = of_int k"
  unfolding float_round_def using assms by (intro fp_round_of_int) simp_all

lemma float_round_scaled:
  assumes "x = of_int k * 2 powr of_int e" and "\<bar>k\<bar> < 16777216" and "- 149 \<le> e"
  shows "float_round x = x"
  unfolding float_round_def using assms by (intro fp_round_exact [of x k e]) simp_all

lemma float_round_one: "float_round 1 = 1"
  using float_round_of_int [of 1] by simp

lemma float_round_zero: "float_round 0 = 0"
  by (simp add: float_round_def fp_round_zero)

lemma float_round_half: "float_round (1 / 2) = 1 / 2"
  by (rule float_round_scaled [of _ 1 "- 1"]) (simp_all add: powr_minus_divide)





lemma round_to_even_near:
  assumes "\<bar>y - of_int n\<bar> < 1 / 2"
  shows "round_to_even y = n"
proof -
  have "y - 1 / 2 \<le> of_int (round_to_even y)" "of_int (round_to_even y) \<le> y + 1 / 2"
    by (rule round_to_even_lower, rule round_to_even_upper)
  with assms have "\<bar>real_of_int (round_to_even y) - real_of_int n\<bar> < 1"
    by linarith
  then have "\<bar>round_to_even y - n\<bar> < 1"
    by (metis of_int_abs of_int_diff of_int_less_1_iff)
  then show ?thesis by linarith
qed

lemma fp_round_eval:
  assumes "2 powr of_int e \<le> \<bar>x\<bar>" and "\<bar>x\<bar> < 2 powr of_int (e + 1)" and "emin \<le> e"
    and "\<bar>x / 2 powr (of_int e - of_nat prec) - of_int n\<bar> < 1 / 2"
  shows "fp_round prec emin x = of_int n * 2 powr (of_int e - of_nat prec)"
proof -
  have x0: "x \<noteq> 0"
    using assms(1) by (smt (verit) powr_gt_zero)
  have E: "fp_exponent emin x = e"
    by (rule fp_exponent_eq [OF assms(1,2,3)])
  have "round_to_even (x / 2 powr (of_int e - of_nat prec)) = n"
    by (rule round_to_even_near [OF assms(4)])
  then show ?thesis
    using x0 by (simp add: fp_round_ulp fp_ulp_def E)
qed

lemma fp_round_error_bound:
  assumes "\<bar>x\<bar> < 2 powr of_int (e + 1)" and "emin \<le> e"
  shows "\<bar>fp_round prec emin x - x\<bar> \<le> 2 powr (of_int e - of_nat prec - 1)"
proof (cases "x = 0")
  case True
  then show ?thesis by (simp add: fp_round_zero)
next
  case False
  have "log 2 \<bar>x\<bar> < of_int (e + 1)"
    using assms(1) False by (simp add: log_less_iff)
  then have "\<lfloor>log 2 \<bar>x\<bar>\<rfloor> < e + 1"
    by (simp only: floor_less_iff)
  with assms(2) have "fp_exponent emin x \<le> e"
    by (simp add: fp_exponent_def)
  then have "fp_ulp prec emin x \<le> 2 powr (of_int e - of_nat prec)"
    by (simp add: fp_ulp_def)
  then have "fp_ulp prec emin x / 2 \<le> 2 powr (of_int e - of_nat prec) / 2"
    by simp
  also have "(2::real) powr (of_int e - of_nat prec) / 2 = 2 powr (of_int e - of_nat prec - 1)"
    by (simp add: powr_diff)
  finally show ?thesis
    using fp_round_error [of prec emin x] by linarith
qed

lemma two_powr_neg_int:
  "(2::real) powr (- of_nat n) = 1 / 2 ^ n"
  by (simp add: powr_minus_divide powr_realpow)

lemma two_powr_suc: "(2::real) powr of_int (int m + 1) = 2 ^ Suc m"
proof -
  have "of_int (int m + 1) = real (Suc m)"
    by simp
  then have "(2::real) powr of_int (int m + 1) = 2 powr real (Suc m)"
    by (simp only:)
  also have "\<dots> = 2 ^ Suc m"
    by (rule powr_realpow) simp
  finally show ?thesis .
qed

lemma fp_round_error_pos:
  assumes "\<bar>x\<bar> < 2 ^ Suc m" and "emin \<le> 0"
  shows "\<bar>fp_round prec emin x - x\<bar> \<le> 2 ^ m / 2 ^ Suc prec"
proof -
  have "\<bar>x\<bar> < 2 powr of_int (int m + 1)"
    using assms(1) by (simp only: two_powr_suc)
  moreover have "emin \<le> int m"
    using assms(2) by simp
  ultimately have "\<bar>fp_round prec emin x - x\<bar> \<le> 2 powr (of_int (int m) - of_nat prec - 1)"
    by (rule fp_round_error_bound)
  moreover have "(2::real) powr (of_int (int m) - of_nat prec - 1) = 2 ^ m / 2 ^ Suc prec"
  proof -
    have "of_int (int m) - of_nat prec - 1 = real m - real (Suc prec)"
      by simp
    then have "(2::real) powr (of_int (int m) - of_nat prec - 1) = 2 powr (real m - real (Suc prec))"
      by (simp only:)
    also have "\<dots> = 2 powr real m / 2 powr real (Suc prec)"
      by (rule powr_diff)
    also have "\<dots> = 2 ^ m / 2 ^ Suc prec"
      by (simp only: powr_realpow [of 2, OF zero_less_numeral])
    finally show ?thesis .
  qed
  ultimately show ?thesis by simp
qed

lemma float_round_eval:
  assumes "2 powr of_int e \<le> \<bar>x\<bar>" and "\<bar>x\<bar> < 2 powr of_int (e + 1)" and "- 126 \<le> e"
    and "\<bar>x / 2 powr (of_int e - 23) - of_int n\<bar> < 1 / 2"
  shows "float_round x = of_int n * 2 powr (of_int e - 23)"
  unfolding float_round_def
  using fp_round_eval [of e x "- 126" 23 n] assms by simp

lemma float_round_eval_neg:
  assumes "1 / 2 ^ m \<le> \<bar>x\<bar>" and "\<bar>x\<bar> < 2 / 2 ^ m" and "m \<le> 126"
    and "\<bar>x * 2 ^ (m + 23) - of_int n\<bar> < 1 / 2"
  shows "float_round x = of_int n / 2 ^ (m + 23)"
proof -
  have p1: "(2::real) powr (- real m) = 1 / 2 ^ m"
    by (rule two_powr_neg_int)
  have p2: "(2::real) powr (1 - real m) = 2 / 2 ^ m"
  proof -
    have "(2::real) powr (1 + (- real m)) = 2 powr 1 * 2 powr (- real m)"
      by (rule powr_add)
    then show ?thesis by (simp add: p1)
  qed
  have p3: "(2::real) powr (- real m - 23) = 1 / 2 ^ (m + 23)"
  proof -
    have "- real m - 23 = - real (m + 23)"
      by simp
    then have "(2::real) powr (- real m - 23) = 2 powr (- real (m + 23))"
      by (simp only:)
    also have "\<dots> = 1 / 2 ^ (m + 23)"
      by (rule two_powr_neg_int)
    finally show ?thesis .
  qed
  have "float_round x = of_int n * 2 powr (of_int (- int m) - 23)"
    by (rule float_round_eval) (use assms in \<open>simp_all add: p1 p2 p3\<close>)
  then show ?thesis by (simp add: p3)
qed

lemma float_round_eval_pos:
  assumes "2 ^ m \<le> \<bar>x\<bar>" and "\<bar>x\<bar> < 2 * 2 ^ m" and "m \<le> 23"
    and "\<bar>x * 2 ^ (23 - m) - of_int n\<bar> < 1 / 2"
  shows "float_round x = of_int n / 2 ^ (23 - m)"
proof -
  have p1: "(2::real) powr real m = 2 ^ m"
    by (simp add: powr_realpow)
  have p2: "(2::real) powr (real m + 1) = 2 * 2 ^ m"
  proof -
    have "(2::real) powr (real m + 1) = 2 powr real m * 2 powr 1"
      by (rule powr_add)
    then show ?thesis by (simp add: p1)
  qed
  have p3: "(2::real) powr (real m - 23) = 1 / 2 ^ (23 - m)"
  proof -
    have "real m - 23 = - real (23 - m)"
      using assms(3) by (simp add: of_nat_diff)
    then have "(2::real) powr (real m - 23) = 2 powr (- real (23 - m))"
      by (simp only:)
    also have "\<dots> = 1 / 2 ^ (23 - m)"
      by (rule two_powr_neg_int)
    finally show ?thesis .
  qed
  have "float_round x = of_int n * 2 powr (of_int (int m) - 23)"
    by (rule float_round_eval) (use assms in \<open>simp_all add: p1 p2 p3\<close>)
  then show ?thesis by (simp add: p3)
qed

lemma half_ulp_window:
  fixes s :: real
  assumes "(2 * k - 1) / (2 * d) < s" and "s < (2 * k + 1) / (2 * d)" and "0 < d"
  shows "\<bar>s * d - k\<bar> < 1 / 2"
proof -
  define t where "t = s * d"
  have "2 * k - 1 < s * (2 * d)"
    using assms(1,3) by (simp add: pos_divide_less_eq)
  then have lo: "2 * k - 1 < 2 * t"
    by (simp add: t_def mult.commute mult.left_commute)
  have "s * (2 * d) < 2 * k + 1"
    using assms(2,3) by (simp add: pos_less_divide_eq)
  then have hi: "2 * t < 2 * k + 1"
    by (simp add: t_def mult.commute mult.left_commute)
  from lo hi have "\<bar>t - k\<bar> < 1 / 2"
    by linarith
  then show ?thesis
    by (simp only: t_def)
qed

lemma float_round_quarter: "float_round (1 / 4) = 1 / 4"
  by (rule float_round_scaled [of _ 1 "- 2"]) (simp_all add: powr_minus_divide)

lemma float_round_eighth: "float_round (1 / 8) = 1 / 8"
  by (rule float_round_scaled [of _ 1 "- 3"]) (simp_all add: powr_minus_divide)

lemma float_round_twenty: "float_round 20 = 20"
  using float_round_of_int [of 20] by simp

lemma float_round_near_one:
  assumes "1 - 1 / 2 ^ 25 < s" and "s \<le> 1"
  shows "float_round s = 1"
proof (cases "s = 1")
  case True
  then show ?thesis by (simp add: float_round_one)
next
  case False
  with assms(2) have lt: "s < 1" by simp
  have "float_round s = of_int 16777216 / 2 ^ (1 + 23)"
  proof (rule float_round_eval_neg)
    show "1 / 2 ^ 1 \<le> \<bar>s\<bar>"
      using assms(1) by simp
    show "\<bar>s\<bar> < 2 / 2 ^ 1"
      using lt assms(1) by simp
    show "(1::nat) \<le> 126" by simp
    show "\<bar>s * 2 ^ (1 + 23) - of_int 16777216\<bar> < 1 / 2"
      using assms(1) lt by simp
  qed
  then show ?thesis by simp
qed




section \<open>A source at 90 degrees, one tenth away\<close>

text \<open>
  The parameters of lines 153 to 160 for a listener at the origin and a source at
  \<open>(0.1, 0, 0)\<close> under an \<^verbatim>\<open>angle_to\<close> of 90 degrees. The distance is the \<^verbatim>\<open>float\<close>
  nearest to 0.1, which is \<open>13421773 / 2 ^ 27\<close>; ten times it rounds to 1, so the
  attenuation is 1/2. The angle is within \<open>2 powr - 22\<close> of \<open>pi / 2\<close>, its sine is above
  \<open>1 - 2 powr - 25\<close> and rounds to 1, so the delay is 20 and the amplitude ratio 1/2, as
  they are at \<open>pi / 2\<close> itself.
\<close>

lemma float_round_minus_tenth:
  "float_round (- (1 / 10)) = - (13421773 / 134217728)"
  using float_round_eval_neg [of 4 "- (1 / 10)" "- 13421773"] by simp

lemma float_round_tenth_squared:
  "float_round ((- (13421773 / 134217728))\<^sup>2) = 10737419 / 1073741824"
  using float_round_eval_neg [of 7 "(- (13421773 / 134217728))\<^sup>2" 10737419]
  by (simp add: power2_eq_square)

lemma float_round_tenth_times_ten:
  "float_round (13421773 / 134217728 * 10) = 1"
  using float_round_eval_pos [of 0 "13421773 / 134217728 * 10" 8388608] by simp

lemma sqrt_tenth_bounds:
  "26843545 / 268435456 < sqrt (10737419 / 1073741824)"
  "sqrt (10737419 / 1073741824) < 26843547 / 268435456"
proof -
  show "26843545 / 268435456 < sqrt (10737419 / 1073741824)"
    by (rule real_less_rsqrt) (simp add: power2_eq_square)
  show "sqrt (10737419 / 1073741824) < 26843547 / 268435456"
    by (rule real_less_lsqrt) (simp_all add: power2_eq_square)
qed

lemma float_round_sqrt_tenth:
  "float_round (sqrt (10737419 / 1073741824)) = 13421773 / 134217728"
proof -
  note b = sqrt_tenth_bounds
  have "float_round (sqrt (10737419 / 1073741824)) = of_int 13421773 / 2 ^ (4 + 23)"
  proof (rule float_round_eval_neg)
    show "1 / 2 ^ 4 \<le> \<bar>sqrt (10737419 / 1073741824)\<bar>"
      using b(1) by simp
    show "\<bar>sqrt (10737419 / 1073741824)\<bar> < 2 / 2 ^ 4"
      using b(2) by simp
    show "(4::nat) \<le> 126" by simp
    have "\<bar>sqrt (10737419 / 1073741824) * 134217728 - 13421773\<bar> < 1 / 2"
      by (rule half_ulp_window) (use b in simp_all)
    then show "\<bar>sqrt (10737419 / 1073741824) * 2 ^ (4 + 23) - of_int 13421773\<bar> < 1 / 2"
      by simp
  qed
  then show ?thesis by simp
qed

lemma distance_one_tenth:
  "planarDistance (0, 0, 0) (1 / 10, 0, 0) = 13421773 / 134217728"
proof -
  have x: "float_round (- fst (0::real, 0::real, 0::real) - fst (1 / 10 :: real, 0::real, 0::real))
      = - (13421773 / 134217728)"
    using float_round_minus_tenth by simp
  have z: "float_round (- snd (snd (0::real, 0::real, 0::real))
        - snd (snd (1 / 10 :: real, 0::real, 0::real))) = 0"
    by (simp add: float_round_zero)
  have zz: "float_round (0\<^sup>2) = 0"
    by (simp add: float_round_zero)
  have s: "float_round (10737419 / 1073741824 + 0) = 10737419 / 1073741824"
    using float_round_scaled [of "10737419 / 1073741824" 10737419 "- 30"]
    by (simp add: powr_minus_divide)
  show ?thesis
    unfolding planarDistance_def
    by (simp only: x z zz float_round_tenth_squared s float_round_sqrt_tenth)
qed

lemma distanceAmpRatio_tenth_float:
  "distanceAmpRatio (13421773 / 134217728) = 1 / 2"
proof -
  have "distanceAmpRatio (13421773 / 134217728) = float_round (0.5 powr float_round (root 3 1))"
    by (simp only: distanceAmpRatio_def float_round_tenth_times_ten)
  also have "\<dots> = 1 / 2"
    by (simp add: float_round_one float_round_half)
  finally show ?thesis .
qed

lemma cos_lower: "1 - x\<^sup>2 / 2 \<le> cos (x :: real)"
proof -
  have "cos x = cos (2 * (x / 2))"
    by simp
  also have "\<dots> = 1 - 2 * (sin (x / 2))\<^sup>2"
    by (rule cos_double_sin)
  finally have c: "cos x = 1 - 2 * (sin (x / 2))\<^sup>2" .
  have "\<bar>sin (x / 2)\<bar> \<le> \<bar>x / 2\<bar>"
    by (rule abs_sin_x_le_abs_x)
  then have "(sin (x / 2))\<^sup>2 \<le> (x / 2)\<^sup>2"
    by (simp only: abs_le_square_iff)
  then have "(sin (x / 2))\<^sup>2 \<le> x\<^sup>2 / 4"
    by (simp add: power_divide)
  with c show ?thesis by simp
qed

lemma abs_diff_bounds:
  fixes x y :: real
  assumes "\<bar>x - y\<bar> \<le> c"
  shows "y - c \<le> x" and "x \<le> y + c"
  using assms by linarith+

lemma angleToSource_90_near:
  "\<bar>angleToSource 90 - pi / 2\<bar> \<le> 1 / 2 ^ 22"
proof -
  define A1 where "A1 = double_round (90 * M_PI)"
  define A2 where "A2 = double_round (A1 / 180)"
  define A3 where "A3 = float_round A2"
  have pi4: "pi < 4"
    by (rule pi_less_4)
  have pi0: "0 < pi"
    by (rule pi_gt_zero)
  have "\<bar>M_PI - pi\<bar> \<le> 2 ^ 1 / 2 ^ Suc 52"
    unfolding M_PI_def double_round_def
    by (rule fp_round_error_pos) (use pi4 pi0 in simp_all)
  then have "\<bar>M_PI - pi\<bar> \<le> 1 / 4503599627370496"
    by simp
  note e1 = abs_diff_bounds [OF this]
  have "- 512 < 90 * M_PI \<and> 90 * M_PI < 512"
    using e1 pi4 pi0 by linarith
  then have b1: "\<bar>90 * M_PI\<bar> < 2 ^ Suc 8"
    by (simp add: abs_less_iff)
  have "\<bar>A1 - 90 * M_PI\<bar> \<le> 2 ^ 8 / 2 ^ Suc 52"
    unfolding A1_def double_round_def
    by (rule fp_round_error_pos) (use b1 in simp_all)
  then have "\<bar>A1 - 90 * M_PI\<bar> \<le> 1 / 35184372088832"
    by simp
  note e2 = abs_diff_bounds [OF this]
  have "- 4 < A1 / 180 \<and> A1 / 180 < 4"
    using e2 e1 pi4 pi0 by linarith
  then have b2: "\<bar>A1 / 180\<bar> < 2 ^ Suc 1"
    by (simp add: abs_less_iff)
  have "\<bar>A2 - A1 / 180\<bar> \<le> 2 ^ 1 / 2 ^ Suc 52"
    unfolding A2_def double_round_def
    by (rule fp_round_error_pos) (use b2 in simp_all)
  then have "\<bar>A2 - A1 / 180\<bar> \<le> 1 / 4503599627370496"
    by simp
  note e3 = abs_diff_bounds [OF this]
  have "- 4 < A2 \<and> A2 < 4"
    using e3 e2 e1 pi4 pi0 by linarith
  then have b3: "\<bar>A2\<bar> < 2 ^ Suc 1"
    by (simp add: abs_less_iff)
  have "\<bar>A3 - A2\<bar> \<le> 2 ^ 1 / 2 ^ Suc 23"
    unfolding A3_def float_round_def
    by (rule fp_round_error_pos) (use b3 in simp_all)
  then have "\<bar>A3 - A2\<bar> \<le> 1 / 8388608"
    by simp
  note e4 = abs_diff_bounds [OF this]
  have "- (1 / 4194304) \<le> A3 - pi / 2 \<and> A3 - pi / 2 \<le> 1 / 4194304"
    using e1 e2 e3 e4 by linarith
  then have "\<bar>A3 - pi / 2\<bar> \<le> 1 / 4194304"
    by linarith
  moreover have "angleToSource 90 = A3"
    by (simp add: angleToSource_def A3_def A2_def A1_def)
  moreover have "(1 :: real) / 2 ^ 22 = 1 / 4194304"
    by simp
  ultimately show ?thesis by (simp only:)
qed

lemma angleToSource_90_pos: "0 < angleToSource 90"
proof -
  have "2 \<le> pi"
    by (rule pi_ge_two)
  moreover have "\<bar>angleToSource 90 - pi / 2\<bar> \<le> 1 / 4194304"
    using angleToSource_90_near by simp
  ultimately show ?thesis
    by linarith
qed

lemma sinf_angleToSource_90: "float_round (sin (angleToSource 90)) = 1"
proof (rule float_round_near_one)
  define d where "d = pi / 2 - angleToSource 90"
  have d: "\<bar>d\<bar> \<le> 1 / 2 ^ 22"
    using angleToSource_90_near by (simp add: d_def abs_minus_commute)
  have s: "sin (angleToSource 90) = cos d"
    using sin_cos_eq [of "angleToSource 90"] by (simp add: d_def)
  have "d\<^sup>2 \<le> (1 / 2 ^ 22)\<^sup>2"
    using d by (simp only: abs_le_square_iff [symmetric])
  moreover have "(1 / 2 ^ 22 :: real)\<^sup>2 = 1 / 17592186044416"
    by (simp add: power_divide)
  ultimately have "d\<^sup>2 \<le> 1 / 17592186044416"
    by (simp only:)
  with cos_lower [of d] have "1 - 1 / 33554432 < cos d"
    by linarith
  then show "1 - 1 / 2 ^ 25 < sin (angleToSource 90)"
    unfolding s by simp
  show "sin (angleToSource 90) \<le> 1"
    by simp
qed

lemma spatial_at_90:
  "sinRatio (90 * pi / 180) = 1"
  "numSamplesDelay (90 * pi / 180) = 20"
  "phaseAmpRatio (90 * pi / 180) = 1 / 2"
  by (simp_all add: sinRatio_def numSamplesDelay_def phaseAmpRatio_def float_to_int_def
      PHASE_DELAY_AT_90_def AMPLITUDE_RATIO_AT_90_def float_round_one float_round_half
      float_round_twenty)

lemma spatial_at_source_90:
  "sinRatio (angleToSource 90) = 1"
  "numSamplesDelay (angleToSource 90) = 20"
  "phaseAmpRatio (angleToSource 90) = 1 / 2"
proof -
  show s: "sinRatio (angleToSource 90) = 1"
    by (simp add: sinRatio_def sinf_angleToSource_90 float_round_one)
  show "numSamplesDelay (angleToSource 90) = 20"
    by (simp add: numSamplesDelay_def s PHASE_DELAY_AT_90_def float_round_twenty
        float_to_int_def)
  show "phaseAmpRatio (angleToSource 90) = 1 / 2"
    by (simp add: phaseAmpRatio_def s AMPLITUDE_RATIO_AT_90_def float_round_half)
qed

section \<open>The mixing loop in closed form\<close>

text \<open>
  After \<open>n\<close> iterations the first \<open>n\<close> entries of the three arrays are known: the queue
  holds the scaled samples \<open>sq j\<close>, the leading channel has \<open>sq j\<close> added at \<open>j\<close>, and the
  trailing channel has \<open>sq (j - delay)\<close> added at \<open>j\<close> from the delay on, with no further
  factor, and the history value \<open>h j\<close> below the delay.
\<close>

lemma update_after_prefix:
  assumes "length xs = n" and "n < length ys"
  shows "(xs @ drop n ys)[n := v] = (xs @ [v]) @ drop (Suc n) ys"
proof -
  have "drop n ys = ys ! n # drop (Suc n) ys"
    using assms(2) by (simp add: Cons_nth_drop_Suc)
  then show ?thesis
    using assms(1) by (simp add: list_update_append)
qed

lemma nth_after_prefix:
  assumes "length xs = n" and "n < length ys"
  shows "(xs @ drop n ys) ! n = ys ! n"
  using assms by (simp add: nth_append)

lemma mixSamples_prefix:
  fixes sq h :: "nat \<Rightarrow> int16"
  assumes lq: "length q0 = BUFFER_LENGTH_SAMPLES"
    and ll: "length l0 = BUFFER_LENGTH_SAMPLES"
    and lt: "length t0 = BUFFER_LENGTH_SAMPLES"
    and d0: "0 \<le> delay"
    and sc: "\<And>j. j < BUFFER_LENGTH_SAMPLES \<Longrightarrow>
      scaleSample dAmp (q0 ! j) = Some (sq j)"
    and hist: "\<And>j. j < BUFFER_LENGTH_SAMPLES \<Longrightarrow> int j < delay \<Longrightarrow>
      historySample source start delay dAmp pAmp j (t0 ! j) = Some (h j)"
    and n: "n \<le> BUFFER_LENGTH_SAMPLES"
  shows "mixSamples source start delay dAmp pAmp n
      \<lparr>samplesToQueue = q0, leadingOutput = l0, trailingOutput = t0\<rparr>
    = Some \<lparr>samplesToQueue = map sq [0..<n] @ drop n q0,
            leadingOutput = map (\<lambda>j. l0 ! j + sq j) [0..<n] @ drop n l0,
            trailingOutput =
              map (\<lambda>j. if delay \<le> int j then t0 ! j + sq (j - nat delay) else h j) [0..<n]
              @ drop n t0\<rparr>"
  using n
proof (induction n)
  case 0
  show ?case by simp
next
  case (Suc n)
  then have n_lt: "n < BUFFER_LENGTH_SAMPLES" by simp
  let ?Q = "map sq [0..<n]"
  let ?L = "map (\<lambda>j. l0 ! j + sq j) [0..<n]"
  let ?T = "map (\<lambda>j. if delay \<le> int j then t0 ! j + sq (j - nat delay) else h j) [0..<n]"
  have prev: "mixSamples source start delay dAmp pAmp n
      \<lparr>samplesToQueue = q0, leadingOutput = l0, trailingOutput = t0\<rparr>
    = Some \<lparr>samplesToQueue = ?Q @ drop n q0, leadingOutput = ?L @ drop n l0,
            trailingOutput = ?T @ drop n t0\<rparr>"
    using Suc by simp
  have qn: "(?Q @ drop n q0) ! n = q0 ! n"
    by (rule nth_after_prefix) (simp_all add: lq n_lt)
  have ln: "(?L @ drop n l0) ! n = l0 ! n"
    by (rule nth_after_prefix) (simp_all add: ll n_lt)
  have tn: "(?T @ drop n t0) ! n = t0 ! n"
    by (rule nth_after_prefix) (simp_all add: lt n_lt)
  have qupd: "(?Q @ drop n q0)[n := sq n] = map sq [0..<Suc n] @ drop (Suc n) q0"
    using update_after_prefix [of ?Q n q0 "sq n"] lq n_lt by simp
  have lupd: "(?L @ drop n l0)[n := l0 ! n + sq n]
      = map (\<lambda>j. l0 ! j + sq j) [0..<Suc n] @ drop (Suc n) l0"
    using update_after_prefix [of ?L n l0 "l0 ! n + sq n"] ll n_lt by simp
  have tupd: "\<And>v. (?T @ drop n t0)[n := v] = (?T @ [v]) @ drop (Suc n) t0"
    by (rule update_after_prefix) (simp_all add: lt n_lt)
  have q_at_n: "(map sq [0..<n] @ sq n # drop (Suc n) q0) ! n = sq n"
    by (simp add: nth_append)
  have back_read: "delay \<le> int n \<Longrightarrow>
      (map sq [0..<Suc n] @ drop (Suc n) q0) ! nat (int n - delay) = sq (n - nat delay)"
  proof -
    assume le: "delay \<le> int n"
    have idx: "nat (int n - delay) = n - nat delay"
      using d0 le by simp
    have "n - nat delay < length (map sq [0..<Suc n])" by simp
    then have "(map sq [0..<Suc n] @ drop (Suc n) q0) ! (n - nat delay)
        = map sq [0..<Suc n] ! (n - nat delay)"
      by (simp only: nth_append if_True)
    also have "\<dots> = sq (n - nat delay)"
      by (simp del: upt_Suc add: nth_map_upt)
    finally show ?thesis by (simp only: idx)
  qed
  show ?case
  proof (cases "delay \<le> int n")
    case True
    show ?thesis
      using True back_read [OF True]
      by (simp add: prev mixSample_def qn ln tn sc [OF n_lt] qupd lupd tupd q_at_n Let_def)
  next
    case False
    then have lt_d: "int n < delay" by simp
    show ?thesis
      using False
      by (simp add: prev mixSample_def qn ln tn sc [OF n_lt] hist [OF n_lt lt_d]
          qupd lupd tupd q_at_n Let_def)
  qed
qed

lemma sint_in_range:
  assumes "- 32768 \<le> k" and "k < 32768"
  shows "sint (word_of_int k :: int16) = k"
  using assms by (simp add: sint_sbintrunc' signed_take_bit_int_eq_self)

lemma int16_to_float_in_range:
  assumes "- 32768 \<le> k" and "k < 32768"
  shows "int16_to_float (word_of_int k) = real_of_int k"
  by (simp add: int16_to_float_def sint_in_range [OF assms])

lemma float_to_int16_of_int:
  assumes "- 32768 \<le> k" and "k \<le> 32767"
  shows "float_to_int16 (real_of_int k) = Some (word_of_int k)"
  using assms by (simp add: float_to_int16_def float_to_int_def)

lemma historySample_wrapped:
  assumes "int start - delay + int i < 0"
    and "0 \<le> int start - delay + int i + int (lengthInSamples source)"
    and "nat (int start - delay + int i + int (lengthInSamples source)) = k"
    and "k < length (sourceData source)"
  shows "historySample source start delay dAmp pAmp i t =
    float_to_int16
      (float_round
         (int16_to_float t
          + float_round
              (int16_to_float (sourceData source ! k)
               * float_round (float_round (dAmp * pAmp) / real NUM_AUDIO_SOURCES))))"
  using assms by (auto simp: historySample_def Let_def)

lemma mixSource_left_leads:
  assumes "length queue = BUFFER_LENGTH_SAMPLES" and "length outL = BUFFER_LENGTH_SAMPLES"
    and "length outR = BUFFER_LENGTH_SAMPLES"
    and "0 < angleToSource angle_to"
    and "readFrame source queue = Some (source', q)"
    and "mixSamples source' (samplePointer source) (numSamplesDelay (angleToSource angle_to))
           (distanceAmpRatio (planarDistance headPos (position source)))
           (phaseAmpRatio (angleToSource angle_to)) BUFFER_LENGTH_SAMPLES
           \<lparr>samplesToQueue = q, leadingOutput = outL, trailingOutput = outR\<rparr> = Some st"
  shows "mixSource headPos angle_to source queue outL outR =
    Some \<lparr>mixedSource = source', mixedQueue = samplesToQueue st,
          mixedLeft = leadingOutput st, mixedRight = trailingOutput st\<rparr>"
  using assms by (simp add: mixSource_def Let_def)

section \<open>Claims\<close>

text \<open>
  C1. A packet written without a cushion that crosses the store boundary at \<open>C - k\<close> is
  split into \<open>k\<close> head samples at the end of the store and \<open>512 - k\<close> tail samples at
  its start, the frontier becomes the tail length, and reading the two pieces back gives
  the packet. The code copies the tail from \<^verbatim>\<open>receivedData + bufferSampleOverlap\<close>, not
  from where the head stopped. Evaluated with the frontier at 1602 (\<open>k = 446\<close>), the read
  cursor at 512 (the state of \<open>wrap_branch_is_reached\<close>) and the packet
  \<open>0, 1, \<dots>, 511\<close>: the head and the frontier are as
  claimed, but the 66 samples at the store start are the packet's samples 66 to 131, so
  the read-back is not the packet.
\<close>

theorem wrap_tail_read_from_wrong_offset:
  "map_option (\<lambda>r. (drop 1602 (buffer r) @ take 66 (buffer r), endOfLastWrite r))
     (receivePacket
        \<lparr>buffer = replicate 2048 0, nextOutput = 512, endOfLastWrite = Some 1602\<rparr>
        (map of_nat [0..<512]))
   = Some (map of_nat [0..<446] @ map of_nat [66..<132], Some 66)
   \<and> map of_nat [0..<446] @ map of_nat [66..<132] \<noteq> (map of_nat [0..<512] :: int16 list)"
proof -
  let ?rb = "\<lparr>buffer = replicate 2048 (0::int16), nextOutput = 512,
               endOfLastWrite = Some 1602\<rparr>"
  let ?pkt = "map of_nat [0..<512] :: int16 list"
  have n: "\<not> needsJitterBuffer ?rb"
    by (simp add: needsJitterBuffer_def diffLastWriteNextOutput_def audio_consts)
  have len: "length (buffer ?rb) = RING_BUFFER_SIZE_SAMPLES" "length ?pkt = PACKET_LENGTH_SAMPLES"
    by (simp_all add: audio_consts)
  have run: "receivePacket ?rb ?pkt =
      Some (?rb\<lparr>buffer := take 66 (drop 66 ?pkt) @ drop 66 (take 1602 (buffer ?rb))
                            @ take 446 ?pkt,
                  endOfLastWrite := Some 66\<rparr>)"
    using receive_wrap [OF n _ _ _ len, of 1602] by simp
  have readback: "map_option (\<lambda>r. (drop 1602 (buffer r) @ take 66 (buffer r), endOfLastWrite r))
      (receivePacket ?rb ?pkt) = Some (map of_nat [0..<446] @ map of_nat [66..<132], Some 66)"
    unfolding run by (simp add: take_map drop_map)
  have differ: "map of_nat [0..<446] @ map of_nat [66..<132] \<noteq> ?pkt"
  proof
    assume "map of_nat [0..<446] @ map of_nat [66..<132] = ?pkt"
    then have "(map of_nat [0..<446] @ map of_nat [66..<132]) ! 446 = ?pkt ! 446"
      by (rule arg_cong)
    then show False by (simp add: nth_append)
  qed
  from readback differ show ?thesis by (rule conjI)
qed

text \<open>
  C2. In synthesis mode the trailing ear is to receive, at every index from the delay on,
  the source sample delayed and scaled additionally by \<open>1 - 0.5 * sinRatio\<close>; at 90
  degrees the delay is 20 and the trailing channel is half the leading one. The loop
  applies \<^verbatim>\<open>phaseAmpRatio\<close> only below the delay, where it reads the source's history.
  Evaluated for a source at 90 degrees, 0.1 away (attenuation 0.5), whose sample \<open>k\<close> is
  \<open>8k\<close>, into zeroed outputs: the delay is 20 and the ratio 1/2 as claimed; the left
  (leading) channel holds 200 at index 100; the right (trailing) channel holds the same
  200 at index 120, not 100; at index 0 it holds 1004, sample 1004 of the source times
  0.5 * 0.5 / 2. The delay and the ratio are the same at \<open>pi / 2\<close> and at the \<^verbatim>\<open>float\<close>
  that line 156 computes from 90 degrees (\<open>spatial_at_source_90\<close>), and every product of
  a sample with a factor is an integer here, so no rounding enters the three samples.
\<close>

theorem trailing_ear_not_attenuated_after_delay:
  "numSamplesDelay (90 * pi / 180) = 20
   \<and> phaseAmpRatio (90 * pi / 180) = 1 / 2
   \<and> map_option (\<lambda>m. (mixedLeft m ! 100, mixedRight m ! 120, mixedRight m ! 0))
        (mixSource (0, 0, 0) 90
           \<lparr>position = (1 / 10, 0, 0),
            sourceData = map (\<lambda>k. word_of_int (8 * int k)) [0..<1024],
            samplePointer = 0, lengthInSamples = 1024\<rparr>
           (replicate 512 0) (replicate 512 0) (replicate 512 0))
      = Some (200, 200, 1004)"
proof -
  let ?data = "map (\<lambda>k. word_of_int (8 * int k)) [0..<1024] :: int16 list"
  let ?src = "\<lparr>position = (1 / 10, 0, 0), sourceData = ?data,
               samplePointer = 0, lengthInSamples = 1024\<rparr>"
  let ?src' = "?src\<lparr>samplePointer := 512\<rparr>"
  let ?q0 = "map (\<lambda>k. word_of_int (8 * int k)) [0..<512] :: int16 list"
  let ?z = "replicate 512 (0 :: int16)"
  let ?sq = "\<lambda>j. word_of_int (2 * int j) :: int16"
  let ?h = "\<lambda>j. word_of_int (1004 + int j) :: int16"
  have frame: "readFrame ?src ?z = Some (?src', ?q0)"
    by (simp add: readFrame_def memcpy_def audio_const_values take_map)
  have sc: "scaleSample (1 / 2) (?q0 ! j) = Some (?sq j)" if "j < BUFFER_LENGTH_SAMPLES" for j
  proof -
    from that have j: "j < 512" by (simp add: audio_const_values)
    have rd: "?q0 ! j = word_of_int (8 * int j)"
      using j by (simp del: upt_Suc)
    have conv: "int16_to_float (word_of_int (8 * int j)) = real_of_int (8 * int j)"
      using j by (intro int16_to_float_in_range) simp_all
    have ratio: "float_round (1 / 2 / real NUM_AUDIO_SOURCES) = 1 / 4"
      by (simp add: NUM_AUDIO_SOURCES_def float_round_quarter)
    have prod: "real_of_int (8 * int j) * (1 / 4) = real_of_int (2 * int j)"
      by simp
    have exact: "float_round (real_of_int (2 * int j)) = real_of_int (2 * int j)"
      using j by (intro float_round_of_int) simp
    have "scaleSample (1 / 2) (?q0 ! j)
        = float_to_int16
            (float_round
               (int16_to_float (?q0 ! j) * float_round (1 / 2 / real NUM_AUDIO_SOURCES)))"
      by (simp only: scaleSample_def)
    also have "\<dots> = float_to_int16 (real_of_int (2 * int j))"
      by (simp only: rd conv ratio prod exact)
    also have "\<dots> = Some (?sq j)"
      using j by (intro float_to_int16_of_int) simp_all
    finally show ?thesis .
  qed
  have hist: "historySample ?src' 0 20 (1 / 2) (1 / 2) j (?z ! j) = Some (?h j)"
    if "j < BUFFER_LENGTH_SAMPLES" and "int j < 20" for j
  proof -
    from that have j: "j < 20" by simp
    have zj: "?z ! j = 0"
      using j by simp
    have rd: "?data ! (1004 + j) = word_of_int (8 * int (1004 + j))"
      using j by (simp del: upt_Suc)
    have conv: "int16_to_float (word_of_int (8 * int (1004 + j))) = real_of_int (8 * int (1004 + j))"
      using j by (intro int16_to_float_in_range) simp_all
    have quarter: "float_round (1 / 2 * (1 / 2)) = 1 / 4"
      using float_round_quarter by simp
    have eighth: "1 / 4 / real NUM_AUDIO_SOURCES = 1 / 8"
      by (simp add: NUM_AUDIO_SOURCES_def)
    have ratio: "float_round (float_round (1 / 2 * (1 / 2)) / real NUM_AUDIO_SOURCES) = 1 / 8"
      by (simp only: quarter eighth float_round_eighth)
    have prod: "real_of_int (8 * int (1004 + j)) * (1 / 8) = real_of_int (1004 + int j)"
      by simp
    have exact: "float_round (real_of_int (1004 + int j)) = real_of_int (1004 + int j)"
      using j by (intro float_round_of_int) simp
    have zero: "int16_to_float 0 + real_of_int (1004 + int j) = real_of_int (1004 + int j)"
      by (simp add: int16_to_float_def)
    have "historySample ?src' 0 20 (1 / 2) (1 / 2) j (?z ! j) =
        float_to_int16
          (float_round
             (int16_to_float (?z ! j)
              + float_round
                  (int16_to_float (sourceData ?src' ! (1004 + j))
                   * float_round (float_round (1 / 2 * (1 / 2)) / real NUM_AUDIO_SOURCES))))"
      using j by (intro historySample_wrapped) simp_all
    also have "sourceData ?src' = ?data"
      by simp
    also have "float_to_int16
          (float_round
             (int16_to_float (?z ! j)
              + float_round
                  (int16_to_float (?data ! (1004 + j))
                   * float_round (float_round (1 / 2 * (1 / 2)) / real NUM_AUDIO_SOURCES))))
        = float_to_int16 (real_of_int (1004 + int j))"
      by (simp only: zj rd conv ratio prod exact zero)
    also have "\<dots> = Some (?h j)"
      using j by (intro float_to_int16_of_int) simp_all
    finally show ?thesis .
  qed
  have loop: "mixSamples ?src' 0 20 (1 / 2) (1 / 2) BUFFER_LENGTH_SAMPLES
      \<lparr>samplesToQueue = ?q0, leadingOutput = ?z, trailingOutput = ?z\<rparr>
    = Some \<lparr>samplesToQueue = map ?sq [0..<BUFFER_LENGTH_SAMPLES] @ drop BUFFER_LENGTH_SAMPLES ?q0,
            leadingOutput = map (\<lambda>j. ?z ! j + ?sq j) [0..<BUFFER_LENGTH_SAMPLES]
              @ drop BUFFER_LENGTH_SAMPLES ?z,
            trailingOutput =
              map (\<lambda>j. if 20 \<le> int j then ?z ! j + ?sq (j - nat 20) else ?h j)
                [0..<BUFFER_LENGTH_SAMPLES]
              @ drop BUFFER_LENGTH_SAMPLES ?z\<rparr>"
    by (rule mixSamples_prefix [where sq = ?sq and h = ?h, OF _ _ _ _ sc hist])
      (simp_all add: audio_const_values)
  have params: "samplePointer ?src = 0"
    "distanceAmpRatio (planarDistance (0, 0, 0) (position ?src)) = 1 / 2"
  proof -
    show "samplePointer ?src = 0"
      by simp
    have "position ?src = (1 / 10, 0, 0)"
      by simp
    then show "distanceAmpRatio (planarDistance (0, 0, 0) (position ?src)) = 1 / 2"
      by (simp only: distance_one_tenth distanceAmpRatio_tenth_float)
  qed
  have loop': "mixSamples ?src' (samplePointer ?src) (numSamplesDelay (angleToSource 90))
      (distanceAmpRatio (planarDistance (0, 0, 0) (position ?src)))
      (phaseAmpRatio (angleToSource 90)) BUFFER_LENGTH_SAMPLES
      \<lparr>samplesToQueue = ?q0, leadingOutput = ?z, trailingOutput = ?z\<rparr>
    = Some \<lparr>samplesToQueue = map ?sq [0..<BUFFER_LENGTH_SAMPLES] @ drop BUFFER_LENGTH_SAMPLES ?q0,
            leadingOutput = map (\<lambda>j. ?z ! j + ?sq j) [0..<BUFFER_LENGTH_SAMPLES]
              @ drop BUFFER_LENGTH_SAMPLES ?z,
            trailingOutput =
              map (\<lambda>j. if 20 \<le> int j then ?z ! j + ?sq (j - nat 20) else ?h j)
                [0..<BUFFER_LENGTH_SAMPLES]
              @ drop BUFFER_LENGTH_SAMPLES ?z\<rparr>"
    by (simp only: params spatial_at_source_90 loop)
  have run: "mixSource (0, 0, 0) 90 ?src ?z ?z ?z
    = Some \<lparr>mixedSource = ?src',
            mixedQueue = samplesToQueue
              \<lparr>samplesToQueue = map ?sq [0..<BUFFER_LENGTH_SAMPLES] @ drop BUFFER_LENGTH_SAMPLES ?q0,
            leadingOutput = map (\<lambda>j. ?z ! j + ?sq j) [0..<BUFFER_LENGTH_SAMPLES]
              @ drop BUFFER_LENGTH_SAMPLES ?z,
            trailingOutput =
              map (\<lambda>j. if 20 \<le> int j then ?z ! j + ?sq (j - nat 20) else ?h j)
                [0..<BUFFER_LENGTH_SAMPLES]
              @ drop BUFFER_LENGTH_SAMPLES ?z\<rparr>,
            mixedLeft = leadingOutput
              \<lparr>samplesToQueue = map ?sq [0..<BUFFER_LENGTH_SAMPLES] @ drop BUFFER_LENGTH_SAMPLES ?q0,
            leadingOutput = map (\<lambda>j. ?z ! j + ?sq j) [0..<BUFFER_LENGTH_SAMPLES]
              @ drop BUFFER_LENGTH_SAMPLES ?z,
            trailingOutput =
              map (\<lambda>j. if 20 \<le> int j then ?z ! j + ?sq (j - nat 20) else ?h j)
                [0..<BUFFER_LENGTH_SAMPLES]
              @ drop BUFFER_LENGTH_SAMPLES ?z\<rparr>,
            mixedRight = trailingOutput
              \<lparr>samplesToQueue = map ?sq [0..<BUFFER_LENGTH_SAMPLES] @ drop BUFFER_LENGTH_SAMPLES ?q0,
            leadingOutput = map (\<lambda>j. ?z ! j + ?sq j) [0..<BUFFER_LENGTH_SAMPLES]
              @ drop BUFFER_LENGTH_SAMPLES ?z,
            trailingOutput =
              map (\<lambda>j. if 20 \<le> int j then ?z ! j + ?sq (j - nat 20) else ?h j)
                [0..<BUFFER_LENGTH_SAMPLES]
              @ drop BUFFER_LENGTH_SAMPLES ?z\<rparr>\<rparr>"
    by (rule mixSource_left_leads [OF _ _ _ _ frame loop'])
      (simp_all add: audio_const_values angleToSource_90_pos)
  have outs: "map_option (\<lambda>m. (mixedLeft m ! 100, mixedRight m ! 120, mixedRight m ! 0))
      (mixSource (0, 0, 0) 90 ?src ?z ?z ?z) = Some (200, 200, 1004)"
    unfolding run by (simp add: audio_const_values del: upt_Suc)
  from spatial_at_90(2) spatial_at_90(3) outs show ?thesis
    by (intro conjI)
qed

text \<open>
  C3. The claim has the cushion of a resynchronisation start at the current write
  frontier. The code resets \<^verbatim>\<open>copyToPointer\<close> to \<^verbatim>\<open>ringBuffer->buffer\<close> for either
  trigger. With the frontier at 1602 and the read cursor at 0 (distance 1602, above
  1536), a store of ones and a packet of sevens: the 66 zeros are at the store start, the
  66 samples from 1602 on are untouched, and the frontier is 578, not 1602 + 66 + 512.
\<close>

theorem resync_cushion_not_at_frontier:
  "needsJitterBuffer \<lparr>buffer = replicate 2048 1, nextOutput = 0, endOfLastWrite = Some 1602\<rparr>
   \<and> map_option (\<lambda>r. (take 66 (buffer r), take 66 (drop 1602 (buffer r)), endOfLastWrite r))
        (receivePacket \<lparr>buffer = replicate 2048 1, nextOutput = 0, endOfLastWrite = Some 1602\<rparr>
           (replicate 512 7))
      = Some (replicate 66 0, replicate 66 1, Some 578)
   \<and> map_option (\<lambda>r. (take 66 (drop 1602 (buffer r)), endOfLastWrite r))
        (receivePacket \<lparr>buffer = replicate 2048 1, nextOutput = 0, endOfLastWrite = Some 1602\<rparr>
           (replicate 512 7))
      \<noteq> Some (replicate 66 0, Some (1602 + 66 + 512))"
proof -
  let ?rb = "\<lparr>buffer = replicate 2048 (1::int16), nextOutput = 0, endOfLastWrite = Some 1602\<rparr>"
  have needs: "needsJitterBuffer ?rb"
    by (simp add: needsJitterBuffer_def diffLastWriteNextOutput_def audio_const_values)
  have run: "receivePacket ?rb (replicate 512 7) =
      Some (?rb\<lparr>buffer := replicate 66 0 @ replicate 512 7 @ replicate 1470 1,
                  endOfLastWrite := Some 578\<rparr>)"
    using receive_cushion [OF needs, of "replicate 512 7"]
    by (simp add: audio_const_values)
  show ?thesis
    unfolding run using needs by simp
qed

text \<open>
  C3, as amended. For every packet that triggers cushion injection, whether the frontier
  is unset or the buffer is nearly full, the zero-fill of \<open>jitterBufferSamples\<close> samples
  begins at the store start, the packet is copied immediately after it, the rest of the
  store is left as it was, and the frontier is set to cushion length + frame size past the
  store start. The read cursor is not moved.
\<close>

theorem cushion_written_at_store_start:
  assumes trig: "endOfLastWrite rb = None \<or>
      (\<exists>e. endOfLastWrite rb = Some e \<and>
           int RING_BUFFER_SIZE_SAMPLES - int PACKET_LENGTH_SAMPLES
             < diffLastWriteNextOutput e (nextOutput rb))"
    and len: "length (buffer rb) = RING_BUFFER_SIZE_SAMPLES"
    and pk: "length pkt = PACKET_LENGTH_SAMPLES"
  shows "\<exists>r. receivePacket rb pkt = Some r
    \<and> take jitterBufferSamples (buffer r) = replicate jitterBufferSamples 0
    \<and> take PACKET_LENGTH_SAMPLES (drop jitterBufferSamples (buffer r)) = pkt
    \<and> drop (jitterBufferSamples + PACKET_LENGTH_SAMPLES) (buffer r)
        = drop (jitterBufferSamples + PACKET_LENGTH_SAMPLES) (buffer rb)
    \<and> endOfLastWrite r = Some (0 + jitterBufferSamples + PACKET_LENGTH_SAMPLES)
    \<and> nextOutput r = nextOutput rb"
proof -
  have needs: "needsJitterBuffer rb"
    using trig by (simp add: needsJitterBuffer_iff)
  show ?thesis
    unfolding receive_cushion [OF needs len pk] using pk by simp
qed

text \<open>The amended C3 at the resynchronisation trigger used above.\<close>

theorem cushion_written_at_store_start_witness:
  "(\<exists>e. endOfLastWrite \<lparr>buffer = replicate 2048 1, nextOutput = 0, endOfLastWrite = Some 1602\<rparr>
          = Some e
        \<and> int RING_BUFFER_SIZE_SAMPLES - int PACKET_LENGTH_SAMPLES
            < diffLastWriteNextOutput e
                (nextOutput \<lparr>buffer = replicate 2048 1, nextOutput = 0,
                             endOfLastWrite = Some 1602\<rparr>))
   \<and> length (buffer \<lparr>buffer = replicate 2048 1, nextOutput = 0, endOfLastWrite = Some 1602\<rparr>)
       = RING_BUFFER_SIZE_SAMPLES
   \<and> length (replicate 512 (7 :: int16)) = PACKET_LENGTH_SAMPLES
   \<and> (\<exists>r. receivePacket \<lparr>buffer = replicate 2048 1, nextOutput = 0,
                            endOfLastWrite = Some 1602\<rparr> (replicate 512 7) = Some r
        \<and> take 66 (buffer r) = replicate 66 0
        \<and> take 512 (drop 66 (buffer r)) = replicate 512 7
        \<and> endOfLastWrite r = Some 578)"
proof -
  have d: "diffLastWriteNextOutput 1602 0 = 1602"
    by (simp add: diffLastWriteNextOutput_def audio_const_values)
  show ?thesis
    using cushion_written_at_store_start
      [of "\<lparr>buffer = replicate 2048 1, nextOutput = 0, endOfLastWrite = Some 1602\<rparr>"
          "replicate 512 7"]
    by (auto simp: audio_const_values d)
qed

text \<open>
  C4. A failure of any step of session start, the stream start among them, is reported,
  leaves \<^verbatim>\<open>initialized\<close> false and returns failure. Evaluated with the library
  initialised, the stream opened and \<^verbatim>\<open>Pa_StartStream\<close> returning \<^verbatim>\<open>paInternalError\<close>
  (-9986): nothing is reported, \<^verbatim>\<open>err\<close> still holds \<^verbatim>\<open>paNoError\<close> and \<^verbatim>\<open>initialized\<close>
  stays true; the outcome is that of a successful start.
\<close>

theorem init_ignores_start_failure:
  "init \<lparr>Pa_Initialize = paNoError, Pa_OpenDefaultStream = paNoError, Pa_StartStream = - 9986\<rparr>
   = \<lparr>initialized = True, err = paNoError, reported = None, returned = False\<rparr>
   \<and> init \<lparr>Pa_Initialize = paNoError, Pa_OpenDefaultStream = paNoError,
            Pa_StartStream = - 9986\<rparr>
     = init \<lparr>Pa_Initialize = paNoError, Pa_OpenDefaultStream = paNoError,
              Pa_StartStream = paNoError\<rparr>"
proof -
  have unread: "init \<lparr>Pa_Initialize = paNoError, Pa_OpenDefaultStream = paNoError,
        Pa_StartStream = e\<rparr>
      = \<lparr>initialized = True, err = paNoError, reported = None, returned = False\<rparr>" for e
    by (simp add: init_def paNoError_def)
  show ?thesis
    by (simp only: unread)
qed

text \<open>
  C5. In relay mode, when the callback has advanced the read cursor and the distance from
  the cursor to the frontier is then below one frame, it unsets the frontier and reports
  starvation. From then on every callback, however many follow, emits a frame of silence
  on both channels and leaves the ring buffer as it is, until a packet arrives: that
  packet finds the frontier unset, so it injects a cushion and sets the frontier again.
\<close>

theorem starvation_unsets_frontier_then_silence:
  assumes len: "length (buffer rb) = RING_BUFFER_SIZE_SAMPLES"
    and al: "nextOutput rb mod BUFFER_LENGTH_SAMPLES = 0"
    and lt: "nextOutput rb < RING_BUFFER_SIZE_SAMPLES"
    and fr: "endOfLastWrite rb = Some e"
    and short: "diffLastWriteNextOutput e (advanceOutput (nextOutput rb)) < int BUFFER_LENGTH_SAMPLES"
    and pk: "length pkt = PACKET_LENGTH_SAMPLES"
  shows "\<exists>res. audioCallback rb = Some res
    \<and> starved res
    \<and> endOfLastWrite (ringBuffer res) = None
    \<and> nextOutput (ringBuffer res) = advanceOutput (nextOutput rb)
    \<and> (\<forall>k. callbacks k (ringBuffer res) =
          Some (ringBuffer res,
                replicate k (replicate BUFFER_LENGTH_SAMPLES 0, replicate BUFFER_LENGTH_SAMPLES 0)))
    \<and> needsJitterBuffer (ringBuffer res)
    \<and> (\<exists>r. receivePacket (ringBuffer res) pkt = Some r
          \<and> endOfLastWrite r = Some (PACKET_LENGTH_SAMPLES + jitterBufferSamples)
          \<and> take jitterBufferSamples (buffer r) = replicate jitterBufferSamples 0)"
proof -
  have fits: "nextOutput rb + BUFFER_LENGTH_SAMPLES \<le> length (buffer rb)"
    using aligned_frame_fits [OF al lt] len by simp
  define rb' where "rb' = rb\<lparr>nextOutput := advanceOutput (nextOutput rb), endOfLastWrite := None\<rparr>"
  define frame where "frame =
    take (BUFFER_LENGTH_SAMPLES - silentTail e (nextOutput rb)) (drop (nextOutput rb) (buffer rb))
    @ replicate (silentTail e (nextOutput rb)) 0"
  have cb: "audioCallback rb =
      Some \<lparr>ringBuffer = rb', outputLeft = frame, outputRight = frame, starved = True\<rparr>"
    unfolding callback_drain [OF fr fits] rb'_def frame_def using short by simp
  have unset: "endOfLastWrite rb' = None"
    by (simp add: rb'_def)
  have len': "length (buffer rb') = RING_BUFFER_SIZE_SAMPLES"
    by (simp add: rb'_def len)
  have needs: "needsJitterBuffer rb'"
    by (simp add: needsJitterBuffer_def unset)
  have silence: "\<forall>k. callbacks k rb' =
      Some (rb', replicate k (replicate BUFFER_LENGTH_SAMPLES 0, replicate BUFFER_LENGTH_SAMPLES 0))"
    using callbacks_idle [OF unset] by blast
  have refill: "\<exists>r. receivePacket rb' pkt = Some r
      \<and> endOfLastWrite r = Some (PACKET_LENGTH_SAMPLES + jitterBufferSamples)
      \<and> take jitterBufferSamples (buffer r) = replicate jitterBufferSamples 0"
    unfolding receive_cushion [OF needs len' pk] by simp
  show ?thesis
    unfolding cb using unset needs silence refill by (simp add: rb'_def)
qed

text \<open>
  C5 at a frontier of 1090 and a read cursor of 512: after the advance to 1024 only 66
  samples are left.
\<close>

theorem starvation_unsets_frontier_then_silence_witness:
  "length (buffer \<lparr>buffer = replicate 2048 5, nextOutput = 512, endOfLastWrite = Some 1090\<rparr>)
     = RING_BUFFER_SIZE_SAMPLES
   \<and> nextOutput \<lparr>buffer = replicate 2048 5, nextOutput = 512, endOfLastWrite = Some 1090\<rparr>
       mod BUFFER_LENGTH_SAMPLES = 0
   \<and> nextOutput \<lparr>buffer = replicate 2048 5, nextOutput = 512, endOfLastWrite = Some 1090\<rparr>
       < RING_BUFFER_SIZE_SAMPLES
   \<and> endOfLastWrite \<lparr>buffer = replicate 2048 5, nextOutput = 512, endOfLastWrite = Some 1090\<rparr>
       = Some 1090
   \<and> diffLastWriteNextOutput 1090 (advanceOutput 512) = 66
   \<and> length (replicate 512 (7 :: int16)) = PACKET_LENGTH_SAMPLES
   \<and> (\<exists>res. audioCallback \<lparr>buffer = replicate 2048 5, nextOutput = 512,
                             endOfLastWrite = Some 1090\<rparr> = Some res
        \<and> starved res
        \<and> endOfLastWrite (ringBuffer res) = None
        \<and> callbacks 3 (ringBuffer res) =
            Some (ringBuffer res, replicate 3 (replicate 512 0, replicate 512 0))
        \<and> (\<exists>r. receivePacket (ringBuffer res) (replicate 512 7) = Some r
              \<and> endOfLastWrite r = Some 578))"
proof -
  have d: "diffLastWriteNextOutput 1090 (advanceOutput 512) = 66"
    by (simp add: diffLastWriteNextOutput_def advanceOutput_def audio_const_values)
  show ?thesis
    using starvation_unsets_frontier_then_silence
      [of "\<lparr>buffer = replicate 2048 5, nextOutput = 512, endOfLastWrite = Some 1090\<rparr>"
          1090 "replicate 512 7"]
    by (auto simp: audio_const_values d)
qed

text \<open>
  C6. For every received packet the receiver injects a cushion if and only if the frontier
  is unset or the distance from the read cursor to the frontier exceeds capacity - frame
  size = 1536; otherwise the packet is written from the frontier on. With a cushion the
  result is the cushion and the packet at the store start and the frontier at 578. Without
  one, a packet that fits is copied whole to the frontier and the frontier advances by
  512; a packet that does not fit is split: its first \<open>512 - overlap\<close> samples go to the
  frontier, \<open>overlap\<close> samples go to the store start, the rest of the store is unchanged
  and the frontier becomes \<open>overlap\<close>, the number of samples past the end of the store.
  The samples at the store start are the packet's from offset \<open>overlap\<close> on, as the code
  copies them (C1). The split is stated for frontiers up to 1792 (beyond that the wrap branch reads past
  the packet array, see \<open>receive_wrap_out_of_bounds\<close>; the frontiers that occur are
  66, 578, 1090 and 1602, see \<open>receive_total_on_grid\<close>).
\<close>

theorem cushion_iff_unset_or_near_full:
  assumes len: "length (buffer rb) = RING_BUFFER_SIZE_SAMPLES"
    and pk: "length pkt = PACKET_LENGTH_SAMPLES"
  shows "(needsJitterBuffer rb \<longleftrightarrow>
            (endOfLastWrite rb = None \<or>
             (\<exists>e. endOfLastWrite rb = Some e \<and>
                  int RING_BUFFER_SIZE_SAMPLES - int PACKET_LENGTH_SAMPLES
                    < diffLastWriteNextOutput e (nextOutput rb))))
    \<and> int RING_BUFFER_SIZE_SAMPLES - int PACKET_LENGTH_SAMPLES = 1536
    \<and> (needsJitterBuffer rb \<longrightarrow>
          receivePacket rb pkt =
            Some (rb\<lparr>buffer := replicate jitterBufferSamples 0 @ pkt
                                @ drop (jitterBufferSamples + PACKET_LENGTH_SAMPLES) (buffer rb),
                      endOfLastWrite := Some (PACKET_LENGTH_SAMPLES + jitterBufferSamples)\<rparr>))
    \<and> (\<forall>e. \<not> needsJitterBuffer rb \<and> endOfLastWrite rb = Some e \<and> e \<le> 1792 \<longrightarrow>
          (\<exists>r. receivePacket rb pkt = Some r
            \<and> take (PACKET_LENGTH_SAMPLES - bufferOverlap e PACKET_LENGTH_SAMPLES)
                 (drop e (buffer r))
               = take (PACKET_LENGTH_SAMPLES - bufferOverlap e PACKET_LENGTH_SAMPLES) pkt
            \<and> drop (bufferOverlap e PACKET_LENGTH_SAMPLES) (take e (buffer r))
               = drop (bufferOverlap e PACKET_LENGTH_SAMPLES) (take e (buffer rb))))
    \<and> (\<forall>e. \<not> needsJitterBuffer rb \<and> endOfLastWrite rb = Some e
            \<and> e + PACKET_LENGTH_SAMPLES \<le> RING_BUFFER_SIZE_SAMPLES \<longrightarrow>
          receivePacket rb pkt =
            Some (rb\<lparr>buffer := take e (buffer rb) @ pkt
                                @ drop (e + PACKET_LENGTH_SAMPLES) (buffer rb),
                      endOfLastWrite := Some (e + PACKET_LENGTH_SAMPLES)\<rparr>))
    \<and> (\<forall>e. \<not> needsJitterBuffer rb \<and> endOfLastWrite rb = Some e
            \<and> RING_BUFFER_SIZE_SAMPLES < e + PACKET_LENGTH_SAMPLES \<and> e \<le> 1792 \<longrightarrow>
          receivePacket rb pkt =
            Some (rb\<lparr>buffer :=
                        take (bufferOverlap e PACKET_LENGTH_SAMPLES)
                          (drop (bufferOverlap e PACKET_LENGTH_SAMPLES) pkt)
                        @ drop (bufferOverlap e PACKET_LENGTH_SAMPLES) (take e (buffer rb))
                        @ take (PACKET_LENGTH_SAMPLES - bufferOverlap e PACKET_LENGTH_SAMPLES) pkt,
                      endOfLastWrite := Some (bufferOverlap e PACKET_LENGTH_SAMPLES)\<rparr>)
          \<and> bufferOverlap e PACKET_LENGTH_SAMPLES
              = e + PACKET_LENGTH_SAMPLES - RING_BUFFER_SIZE_SAMPLES)"
proof (intro conjI)
  show "needsJitterBuffer rb \<longleftrightarrow>
      (endOfLastWrite rb = None \<or>
       (\<exists>e. endOfLastWrite rb = Some e \<and>
            int RING_BUFFER_SIZE_SAMPLES - int PACKET_LENGTH_SAMPLES
              < diffLastWriteNextOutput e (nextOutput rb)))"
    by (rule needsJitterBuffer_iff)
next
  show "int RING_BUFFER_SIZE_SAMPLES - int PACKET_LENGTH_SAMPLES = 1536"
    by (simp add: audio_const_values)
next
  show "needsJitterBuffer rb \<longrightarrow>
      receivePacket rb pkt =
        Some (rb\<lparr>buffer := replicate jitterBufferSamples 0 @ pkt
                            @ drop (jitterBufferSamples + PACKET_LENGTH_SAMPLES) (buffer rb),
                  endOfLastWrite := Some (PACKET_LENGTH_SAMPLES + jitterBufferSamples)\<rparr>)"
    using receive_cushion [OF _ len pk] by blast
next
  show "\<forall>e. \<not> needsJitterBuffer rb \<and> endOfLastWrite rb = Some e \<and> e \<le> 1792 \<longrightarrow>
      (\<exists>r. receivePacket rb pkt = Some r
        \<and> take (PACKET_LENGTH_SAMPLES - bufferOverlap e PACKET_LENGTH_SAMPLES) (drop e (buffer r))
           = take (PACKET_LENGTH_SAMPLES - bufferOverlap e PACKET_LENGTH_SAMPLES) pkt
        \<and> drop (bufferOverlap e PACKET_LENGTH_SAMPLES) (take e (buffer r))
           = drop (bufferOverlap e PACKET_LENGTH_SAMPLES) (take e (buffer rb)))"
    using receive_no_cushion_head [OF _ _ _ len pk] by blast
next
  show "\<forall>e. \<not> needsJitterBuffer rb \<and> endOfLastWrite rb = Some e
        \<and> e + PACKET_LENGTH_SAMPLES \<le> RING_BUFFER_SIZE_SAMPLES \<longrightarrow>
      receivePacket rb pkt =
        Some (rb\<lparr>buffer := take e (buffer rb) @ pkt
                            @ drop (e + PACKET_LENGTH_SAMPLES) (buffer rb),
                  endOfLastWrite := Some (e + PACKET_LENGTH_SAMPLES)\<rparr>)"
    using receive_append [OF _ _ _ len pk] by blast
next
  show "\<forall>e. \<not> needsJitterBuffer rb \<and> endOfLastWrite rb = Some e
        \<and> RING_BUFFER_SIZE_SAMPLES < e + PACKET_LENGTH_SAMPLES \<and> e \<le> 1792 \<longrightarrow>
      receivePacket rb pkt =
        Some (rb\<lparr>buffer :=
                    take (bufferOverlap e PACKET_LENGTH_SAMPLES)
                      (drop (bufferOverlap e PACKET_LENGTH_SAMPLES) pkt)
                    @ drop (bufferOverlap e PACKET_LENGTH_SAMPLES) (take e (buffer rb))
                    @ take (PACKET_LENGTH_SAMPLES - bufferOverlap e PACKET_LENGTH_SAMPLES) pkt,
                  endOfLastWrite := Some (bufferOverlap e PACKET_LENGTH_SAMPLES)\<rparr>)
      \<and> bufferOverlap e PACKET_LENGTH_SAMPLES
          = e + PACKET_LENGTH_SAMPLES - RING_BUFFER_SIZE_SAMPLES"
  proof (intro allI impI)
    fix e
    assume a: "\<not> needsJitterBuffer rb \<and> endOfLastWrite rb = Some e
        \<and> RING_BUFFER_SIZE_SAMPLES < e + PACKET_LENGTH_SAMPLES \<and> e \<le> 1792"
    then have no: "\<not> needsJitterBuffer rb" and fr: "endOfLastWrite rb = Some e"
      and wrap: "1536 < e" and le: "e \<le> 1792"
      by (simp_all add: audio_const_values)
    have ov: "bufferOverlap e PACKET_LENGTH_SAMPLES = e - 1536"
      using wrap by (simp add: bufferOverlap_def audio_const_values)
    have sz: "PACKET_LENGTH_SAMPLES - (e - 1536) = 2048 - e"
      using wrap le by (simp add: audio_const_values)
    have spill: "e - 1536 = e + PACKET_LENGTH_SAMPLES - RING_BUFFER_SIZE_SAMPLES"
      by (simp add: audio_const_values)
    show "receivePacket rb pkt =
        Some (rb\<lparr>buffer :=
                    take (bufferOverlap e PACKET_LENGTH_SAMPLES)
                      (drop (bufferOverlap e PACKET_LENGTH_SAMPLES) pkt)
                    @ drop (bufferOverlap e PACKET_LENGTH_SAMPLES) (take e (buffer rb))
                    @ take (PACKET_LENGTH_SAMPLES - bufferOverlap e PACKET_LENGTH_SAMPLES) pkt,
                  endOfLastWrite := Some (bufferOverlap e PACKET_LENGTH_SAMPLES)\<rparr>)
      \<and> bufferOverlap e PACKET_LENGTH_SAMPLES
          = e + PACKET_LENGTH_SAMPLES - RING_BUFFER_SIZE_SAMPLES"
      unfolding ov sz using receive_wrap [OF no fr wrap le len pk] spill by simp
  qed
qed

text \<open>
  C6 at a frontier of 578 with the read cursor at 0: no cushion, the packet is at 578 and
  the frontier moves to 1090.
\<close>

theorem cushion_iff_unset_or_near_full_witness:
  "length (buffer \<lparr>buffer = replicate 2048 5, nextOutput = 0, endOfLastWrite = Some 578\<rparr>)
     = RING_BUFFER_SIZE_SAMPLES
   \<and> length (replicate 512 (7 :: int16)) = PACKET_LENGTH_SAMPLES
   \<and> \<not> needsJitterBuffer \<lparr>buffer = replicate 2048 5, nextOutput = 0, endOfLastWrite = Some 578\<rparr>
   \<and> (\<exists>r. receivePacket \<lparr>buffer = replicate 2048 5, nextOutput = 0,
                            endOfLastWrite = Some 578\<rparr> (replicate 512 7) = Some r
        \<and> take 512 (drop 578 (buffer r)) = replicate 512 7)
   \<and> receivePacket \<lparr>buffer = replicate 2048 5, nextOutput = 0, endOfLastWrite = Some 578\<rparr>
        (replicate 512 7)
      = Some \<lparr>buffer = replicate 578 5 @ replicate 512 7 @ replicate 958 5, nextOutput = 0,
              endOfLastWrite = Some 1090\<rparr>"
proof -
  let ?rb = "\<lparr>buffer = replicate 2048 (5::int16), nextOutput = 0, endOfLastWrite = Some 578\<rparr>"
  have len: "length (buffer ?rb) = RING_BUFFER_SIZE_SAMPLES"
    and pk: "length (replicate 512 (7 :: int16)) = PACKET_LENGTH_SAMPLES"
    by (simp_all add: audio_const_values)
  have d: "diffLastWriteNextOutput 578 0 = 578"
    by (simp add: diffLastWriteNextOutput_def audio_const_values)
  have ov: "bufferOverlap 578 512 = 0"
    by (simp add: bufferOverlap_def audio_const_values)
  note inst = cushion_iff_unset_or_near_full [OF len pk]
  from inst have no: "\<not> needsJitterBuffer ?rb"
    by (simp add: d audio_const_values)
  from inst no have head: "\<exists>r. receivePacket ?rb (replicate 512 7) = Some r
      \<and> take 512 (drop 578 (buffer r)) = replicate 512 7"
    by (simp add: audio_const_values ov)
  from inst no have whole: "receivePacket ?rb (replicate 512 7)
      = Some \<lparr>buffer = replicate 578 5 @ replicate 512 7 @ replicate 958 5, nextOutput = 0,
              endOfLastWrite = Some 1090\<rparr>"
    by (simp add: audio_const_values)
  from len pk no head whole show ?thesis by blast
qed

text \<open>
  C7. A cushion is exactly \<open>jitterBufferSamples\<close> = 3 * 22050 div 1000 = 66 zero samples
  immediately before the packet. With an empty buffer and no reader (read cursor at the
  store start), the first packet leaves the frontier at 66 + 512, the second and the third
  advance it by 512 each, to 1602; a fourth packet would cross the end of the store, and
  is written behind a fresh cushion at the store start instead of being wrapped.
\<close>

theorem cushion_then_steady_advance:
  assumes len: "length (buffer rb) = RING_BUFFER_SIZE_SAMPLES"
    and empty: "endOfLastWrite rb = None"
    and start: "nextOutput rb = 0"
    and pk: "length p1 = PACKET_LENGTH_SAMPLES" "length p2 = PACKET_LENGTH_SAMPLES"
      "length p3 = PACKET_LENGTH_SAMPLES" "length p4 = PACKET_LENGTH_SAMPLES"
  shows "jitterBufferSamples = 3 * SAMPLE_RATE div 1000
    \<and> (\<forall>r p. needsJitterBuffer r \<and> length (buffer r) = RING_BUFFER_SIZE_SAMPLES
            \<and> length p = PACKET_LENGTH_SAMPLES \<longrightarrow>
          receivePacket r p =
            Some (r\<lparr>buffer := replicate jitterBufferSamples 0 @ p
                               @ drop (jitterBufferSamples + PACKET_LENGTH_SAMPLES) (buffer r),
                     endOfLastWrite := Some (PACKET_LENGTH_SAMPLES + jitterBufferSamples)\<rparr>))
    \<and> (\<exists>r1 r2 r3 r4.
          receivePacket rb p1 = Some r1
        \<and> buffer r1 = replicate jitterBufferSamples 0 @ p1
            @ drop (jitterBufferSamples + PACKET_LENGTH_SAMPLES) (buffer rb)
        \<and> endOfLastWrite r1 = Some (jitterBufferSamples + PACKET_LENGTH_SAMPLES)
        \<and> receivePacket r1 p2 = Some r2
        \<and> endOfLastWrite r2 = Some (jitterBufferSamples + 2 * PACKET_LENGTH_SAMPLES)
        \<and> receivePacket r2 p3 = Some r3
        \<and> endOfLastWrite r3 = Some (jitterBufferSamples + 3 * PACKET_LENGTH_SAMPLES)
        \<and> bufferOverlap (jitterBufferSamples + 3 * PACKET_LENGTH_SAMPLES) PACKET_LENGTH_SAMPLES
            \<noteq> 0
        \<and> needsJitterBuffer r3
        \<and> receivePacket r3 p4 = Some r4
        \<and> buffer r4 = replicate jitterBufferSamples 0 @ p4
            @ drop (jitterBufferSamples + PACKET_LENGTH_SAMPLES) (buffer r3)
        \<and> endOfLastWrite r4 = Some (jitterBufferSamples + PACKET_LENGTH_SAMPLES))"
proof -
  have j: "jitterBufferSamples = 3 * SAMPLE_RATE div 1000"
    by (simp add: audio_consts)
  have needs0: "needsJitterBuffer rb"
    by (simp add: needsJitterBuffer_def empty)
  define r1 where "r1 = rb\<lparr>buffer := replicate jitterBufferSamples 0 @ p1
        @ drop (jitterBufferSamples + PACKET_LENGTH_SAMPLES) (buffer rb),
      endOfLastWrite := Some (PACKET_LENGTH_SAMPLES + jitterBufferSamples)\<rparr>"
  have s1: "receivePacket rb p1 = Some r1"
    unfolding r1_def by (rule receive_cushion [OF needs0 len pk(1)])
  have len1: "length (buffer r1) = RING_BUFFER_SIZE_SAMPLES"
    and fr1: "endOfLastWrite r1 = Some 578" and n1: "nextOutput r1 = 0"
    using len pk(1) start by (simp_all add: r1_def audio_const_values)
  have no1: "\<not> needsJitterBuffer r1"
    by (simp add: needsJitterBuffer_def fr1 n1 diffLastWriteNextOutput_def audio_const_values)
  define r2 where "r2 = r1\<lparr>buffer := take 578 (buffer r1) @ p2
        @ drop (578 + PACKET_LENGTH_SAMPLES) (buffer r1),
      endOfLastWrite := Some (578 + PACKET_LENGTH_SAMPLES)\<rparr>"
  have s2: "receivePacket r1 p2 = Some r2"
    unfolding r2_def
    by (rule receive_append [OF no1 fr1 _ len1 pk(2)]) (simp add: audio_const_values)
  have len2: "length (buffer r2) = RING_BUFFER_SIZE_SAMPLES"
    and fr2: "endOfLastWrite r2 = Some 1090" and n2: "nextOutput r2 = 0"
    using len1 pk(2) n1 by (simp_all add: r2_def audio_const_values)
  have no2: "\<not> needsJitterBuffer r2"
    by (simp add: needsJitterBuffer_def fr2 n2 diffLastWriteNextOutput_def audio_const_values)
  define r3 where "r3 = r2\<lparr>buffer := take 1090 (buffer r2) @ p3
        @ drop (1090 + PACKET_LENGTH_SAMPLES) (buffer r2),
      endOfLastWrite := Some (1090 + PACKET_LENGTH_SAMPLES)\<rparr>"
  have s3: "receivePacket r2 p3 = Some r3"
    unfolding r3_def
    by (rule receive_append [OF no2 fr2 _ len2 pk(3)]) (simp add: audio_const_values)
  have len3: "length (buffer r3) = RING_BUFFER_SIZE_SAMPLES"
    and fr3: "endOfLastWrite r3 = Some 1602" and n3: "nextOutput r3 = 0"
    using len2 pk(3) n2 by (simp_all add: r3_def audio_const_values)
  have needs3: "needsJitterBuffer r3"
    by (simp add: needsJitterBuffer_def fr3 n3 diffLastWriteNextOutput_def audio_const_values)
  have would_wrap: "bufferOverlap (jitterBufferSamples + 3 * PACKET_LENGTH_SAMPLES)
      PACKET_LENGTH_SAMPLES \<noteq> 0"
    by (simp add: bufferOverlap_def audio_const_values)
  define r4 where "r4 = r3\<lparr>buffer := replicate jitterBufferSamples 0 @ p4
        @ drop (jitterBufferSamples + PACKET_LENGTH_SAMPLES) (buffer r3),
      endOfLastWrite := Some (PACKET_LENGTH_SAMPLES + jitterBufferSamples)\<rparr>"
  have s4: "receivePacket r3 p4 = Some r4"
    unfolding r4_def by (rule receive_cushion [OF needs3 len3 pk(4)])
  have shape1: "buffer r1 = replicate jitterBufferSamples 0 @ p1
      @ drop (jitterBufferSamples + PACKET_LENGTH_SAMPLES) (buffer rb)"
    and end1: "endOfLastWrite r1 = Some (jitterBufferSamples + PACKET_LENGTH_SAMPLES)"
    by (simp_all add: r1_def)
  have end2: "endOfLastWrite r2 = Some (jitterBufferSamples + 2 * PACKET_LENGTH_SAMPLES)"
    and end3: "endOfLastWrite r3 = Some (jitterBufferSamples + 3 * PACKET_LENGTH_SAMPLES)"
    by (simp_all add: fr2 fr3 audio_const_values)
  have shape4: "buffer r4 = replicate jitterBufferSamples 0 @ p4
      @ drop (jitterBufferSamples + PACKET_LENGTH_SAMPLES) (buffer r3)"
    and end4: "endOfLastWrite r4 = Some (jitterBufferSamples + PACKET_LENGTH_SAMPLES)"
    by (simp_all add: r4_def)
  have always: "\<forall>r p. needsJitterBuffer r \<and> length (buffer r) = RING_BUFFER_SIZE_SAMPLES
        \<and> length p = PACKET_LENGTH_SAMPLES \<longrightarrow>
      receivePacket r p =
        Some (r\<lparr>buffer := replicate jitterBufferSamples 0 @ p
                           @ drop (jitterBufferSamples + PACKET_LENGTH_SAMPLES) (buffer r),
                 endOfLastWrite := Some (PACKET_LENGTH_SAMPLES + jitterBufferSamples)\<rparr>)"
    using receive_cushion by blast
  from s1 shape1 end1 s2 end2 s3 end3 would_wrap needs3 s4 shape4 end4
  have scenario: "\<exists>r1 r2 r3 r4.
          receivePacket rb p1 = Some r1
        \<and> buffer r1 = replicate jitterBufferSamples 0 @ p1
            @ drop (jitterBufferSamples + PACKET_LENGTH_SAMPLES) (buffer rb)
        \<and> endOfLastWrite r1 = Some (jitterBufferSamples + PACKET_LENGTH_SAMPLES)
        \<and> receivePacket r1 p2 = Some r2
        \<and> endOfLastWrite r2 = Some (jitterBufferSamples + 2 * PACKET_LENGTH_SAMPLES)
        \<and> receivePacket r2 p3 = Some r3
        \<and> endOfLastWrite r3 = Some (jitterBufferSamples + 3 * PACKET_LENGTH_SAMPLES)
        \<and> bufferOverlap (jitterBufferSamples + 3 * PACKET_LENGTH_SAMPLES) PACKET_LENGTH_SAMPLES
            \<noteq> 0
        \<and> needsJitterBuffer r3
        \<and> receivePacket r3 p4 = Some r4
        \<and> buffer r4 = replicate jitterBufferSamples 0 @ p4
            @ drop (jitterBufferSamples + PACKET_LENGTH_SAMPLES) (buffer r3)
        \<and> endOfLastWrite r4 = Some (jitterBufferSamples + PACKET_LENGTH_SAMPLES)"
    by blast
  from j always scenario show ?thesis
    by (intro conjI)
qed

text \<open>C7 on a store of fives and four packets of ones, twos, threes and fours.\<close>

theorem cushion_then_steady_advance_witness:
  "length (buffer \<lparr>buffer = replicate 2048 5, nextOutput = 0, endOfLastWrite = None\<rparr>)
     = RING_BUFFER_SIZE_SAMPLES
   \<and> endOfLastWrite \<lparr>buffer = replicate 2048 5, nextOutput = 0, endOfLastWrite = None\<rparr> = None
   \<and> nextOutput \<lparr>buffer = replicate 2048 5, nextOutput = 0, endOfLastWrite = None\<rparr> = 0
   \<and> length (replicate 512 (1 :: int16)) = PACKET_LENGTH_SAMPLES
   \<and> length (replicate 512 (2 :: int16)) = PACKET_LENGTH_SAMPLES
   \<and> length (replicate 512 (3 :: int16)) = PACKET_LENGTH_SAMPLES
   \<and> length (replicate 512 (4 :: int16)) = PACKET_LENGTH_SAMPLES
   \<and> (\<exists>r1 r2 r3 r4.
          receivePacket \<lparr>buffer = replicate 2048 5, nextOutput = 0, endOfLastWrite = None\<rparr>
            (replicate 512 1) = Some r1
        \<and> endOfLastWrite r1 = Some 578
        \<and> receivePacket r1 (replicate 512 2) = Some r2
        \<and> endOfLastWrite r2 = Some 1090
        \<and> receivePacket r2 (replicate 512 3) = Some r3
        \<and> endOfLastWrite r3 = Some 1602
        \<and> receivePacket r3 (replicate 512 4) = Some r4
        \<and> endOfLastWrite r4 = Some 578)"
  using cushion_then_steady_advance
    [of "\<lparr>buffer = replicate 2048 5, nextOutput = 0, endOfLastWrite = None\<rparr>"
        "replicate 512 1" "replicate 512 2" "replicate 512 3" "replicate 512 4"]
  by (simp add: audio_const_values) blast

text \<open>
  C8. In relay mode, with the frontier set, the callback copies exactly
  \<open>512 - silentTail\<close> samples starting at the read cursor and the last \<open>silentTail\<close>
  samples of the frame are silence, on both channels. \<open>silentTail\<close> is non-zero exactly
  when the frontier is ahead of the read cursor by less than one frame, the distance being
  taken modulo the capacity, and is then the frame size less that distance. The read
  cursor is frame-aligned (C10) and the frontier lies in the store.
\<close>

theorem callback_copies_frame_minus_silent_tail:
  assumes len: "length (buffer rb) = RING_BUFFER_SIZE_SAMPLES"
    and al: "nextOutput rb mod BUFFER_LENGTH_SAMPLES = 0"
    and lt: "nextOutput rb < RING_BUFFER_SIZE_SAMPLES"
    and fr: "endOfLastWrite rb = Some e"
    and le: "e \<le> RING_BUFFER_SIZE_SAMPLES"
  shows "\<exists>res. audioCallback rb = Some res
    \<and> take (BUFFER_LENGTH_SAMPLES - silentTail e (nextOutput rb)) (outputLeft res)
        = take (BUFFER_LENGTH_SAMPLES - silentTail e (nextOutput rb))
            (drop (nextOutput rb) (buffer rb))
    \<and> drop (BUFFER_LENGTH_SAMPLES - silentTail e (nextOutput rb)) (outputLeft res)
        = replicate (silentTail e (nextOutput rb)) 0
    \<and> length (outputLeft res) = BUFFER_LENGTH_SAMPLES
    \<and> outputRight res = outputLeft res
    \<and> (silentTail e (nextOutput rb) \<noteq> 0 \<longleftrightarrow>
          0 < diffLastWriteNextOutput e (nextOutput rb)
          \<and> diffLastWriteNextOutput e (nextOutput rb) < int BUFFER_LENGTH_SAMPLES)
    \<and> (silentTail e (nextOutput rb) \<noteq> 0 \<longrightarrow>
          int (silentTail e (nextOutput rb))
            = int BUFFER_LENGTH_SAMPLES - diffLastWriteNextOutput e (nextOutput rb))"
proof -
  let ?n = "nextOutput rb"
  let ?t = "silentTail e ?n"
  have fits: "?n + BUFFER_LENGTH_SAMPLES \<le> length (buffer rb)"
    using aligned_frame_fits [OF al lt] len by simp
  have t_le: "?t \<le> BUFFER_LENGTH_SAMPLES"
    by (rule silentTail_le)
  have copied: "length (take (BUFFER_LENGTH_SAMPLES - ?t) (drop ?n (buffer rb)))
      = BUFFER_LENGTH_SAMPLES - ?t"
    using fits by simp
  have nonzero: "?t \<noteq> 0 \<longleftrightarrow>
      0 < diffLastWriteNextOutput e ?n \<and> diffLastWriteNextOutput e ?n < int BUFFER_LENGTH_SAMPLES"
    by (rule silentTail_iff_short_lead [OF al lt le])
  have how_much: "?t \<noteq> 0 \<longrightarrow>
      int ?t = int BUFFER_LENGTH_SAMPLES - diffLastWriteNextOutput e ?n"
    using silentTail_value [OF _ lt le] by blast
  show ?thesis
    unfolding callback_drain [OF fr fits]
    using copied t_le nonzero how_much by simp
qed

text \<open>C8 at a frontier of 578 and a read cursor of 512: 66 samples, then 446 of silence.\<close>

theorem callback_copies_frame_minus_silent_tail_witness:
  "length (buffer \<lparr>buffer = replicate 2048 5, nextOutput = 512, endOfLastWrite = Some 578\<rparr>)
     = RING_BUFFER_SIZE_SAMPLES
   \<and> nextOutput \<lparr>buffer = replicate 2048 5, nextOutput = 512, endOfLastWrite = Some 578\<rparr>
       mod BUFFER_LENGTH_SAMPLES = 0
   \<and> nextOutput \<lparr>buffer = replicate 2048 5, nextOutput = 512, endOfLastWrite = Some 578\<rparr>
       < RING_BUFFER_SIZE_SAMPLES
   \<and> endOfLastWrite \<lparr>buffer = replicate 2048 5, nextOutput = 512, endOfLastWrite = Some 578\<rparr>
       = Some 578
   \<and> 578 \<le> RING_BUFFER_SIZE_SAMPLES
   \<and> silentTail 578 512 = 446
   \<and> (\<exists>res. audioCallback \<lparr>buffer = replicate 2048 5, nextOutput = 512,
                             endOfLastWrite = Some 578\<rparr> = Some res
        \<and> take 66 (outputLeft res) = replicate 66 5
        \<and> drop 66 (outputLeft res) = replicate 446 0
        \<and> outputRight res = outputLeft res)"
proof -
  have t: "silentTail 578 512 = 446"
    by (simp add: silentTail_def audio_const_values)
  show ?thesis
    using callback_copies_frame_minus_silent_tail
      [of "\<lparr>buffer = replicate 2048 5, nextOutput = 512, endOfLastWrite = Some 578\<rparr>" 578]
    by (auto simp: audio_const_values t)
qed




text \<open>
  C10. In relay mode the read cursor stays frame-aligned: if \<^verbatim>\<open>nextOutput - buffer\<close> is a
  multiple of 512 below 2048 before a callback, it is so after it; the cursor moves by one
  frame when the frontier is set and returns to 0 exactly when it reaches the capacity.
  The frame the callback copies from the cursor therefore ends inside the store: the
  callback returns, with no read out of bounds.
\<close>

theorem read_cursor_stays_frame_aligned:
  assumes len: "length (buffer rb) = RING_BUFFER_SIZE_SAMPLES"
    and al: "nextOutput rb mod BUFFER_LENGTH_SAMPLES = 0"
    and lt: "nextOutput rb < RING_BUFFER_SIZE_SAMPLES"
  shows "\<exists>res. audioCallback rb = Some res
    \<and> nextOutput (ringBuffer res) mod BUFFER_LENGTH_SAMPLES = 0
    \<and> nextOutput (ringBuffer res) < RING_BUFFER_SIZE_SAMPLES
    \<and> nextOutput (ringBuffer res) =
        (case endOfLastWrite rb of
           None \<Rightarrow> nextOutput rb
         | Some e \<Rightarrow>
             if nextOutput rb + BUFFER_LENGTH_SAMPLES = RING_BUFFER_SIZE_SAMPLES then 0
             else nextOutput rb + BUFFER_LENGTH_SAMPLES)
    \<and> nextOutput rb + BUFFER_LENGTH_SAMPLES \<le> length (buffer rb)"
proof -
  have fits: "nextOutput rb + BUFFER_LENGTH_SAMPLES \<le> length (buffer rb)"
    using aligned_frame_fits [OF al lt] len by simp
  show ?thesis
  proof (cases "endOfLastWrite rb")
    case None
    show ?thesis
      unfolding callback_idle [OF None] using None al lt fits by simp
  next
    case (Some e)
    show ?thesis
      unfolding callback_drain [OF Some fits]
      using Some fits advanceOutput_aligned [OF al lt]
      by (simp add: advanceOutput_def)
  qed
qed

text \<open>C10 at the last frame of the store: the cursor goes from 1536 back to 0.\<close>

theorem read_cursor_stays_frame_aligned_witness:
  "length (buffer \<lparr>buffer = replicate 2048 5, nextOutput = 1536, endOfLastWrite = Some 66\<rparr>)
     = RING_BUFFER_SIZE_SAMPLES
   \<and> nextOutput \<lparr>buffer = replicate 2048 5, nextOutput = 1536, endOfLastWrite = Some 66\<rparr>
       mod BUFFER_LENGTH_SAMPLES = 0
   \<and> nextOutput \<lparr>buffer = replicate 2048 5, nextOutput = 1536, endOfLastWrite = Some 66\<rparr>
       < RING_BUFFER_SIZE_SAMPLES
   \<and> (\<exists>res. audioCallback \<lparr>buffer = replicate 2048 5, nextOutput = 1536,
                             endOfLastWrite = Some 66\<rparr> = Some res
        \<and> nextOutput (ringBuffer res) = 0)"
  using read_cursor_stays_frame_aligned
    [of "\<lparr>buffer = replicate 2048 5, nextOutput = 1536, endOfLastWrite = Some 66\<rparr>"]
  by (auto simp: audio_const_values)

end
